theory Spec2Isabelle
  imports Main "HOL-Library.Word"
begin

unbundle bit_operations_syntax

section \<open>Types and constants of main.c\<close>

text \<open>
  The target is a 32-bit microcontroller: \<^verbatim>\<open>int\<close>, \<^verbatim>\<open>BaseType_t\<close> and
  \<^verbatim>\<open>EventBits_t\<close> are 32-bit words. Signed values are read with \<open>sint\<close> and compared
  with \<open>\<le>s\<close>. \<open>+\<close> wraps around: the overflow of a signed \<^verbatim>\<open>int\<close> is undefined in
  C, and two's complement wrap-around is what the increment does on the target.
  A pointer is an address; address 0 is \<^verbatim>\<open>NULL\<close>.
\<close>

type_synonym c_int = "32 word"
type_synonym BaseType_t = "32 word"
type_synonym EventBits_t = "32 word"
type_synonym addr = nat

record dado_t =
  id_dado :: c_int
  valor :: c_int

definition NULL :: addr where
  "NULL = 0"

definition pdTRUE :: BaseType_t where
  "pdTRUE = 1"

definition pdFALSE :: BaseType_t where
  "pdFALSE = 0"

definition errQUEUE_FULL :: BaseType_t where
  "errQUEUE_FULL = 0"

definition BIT_TASK1_OK :: EventBits_t where
  "BIT_TASK1_OK = push_bit 0 1"

definition BIT_TASK2_OK :: EventBits_t where
  "BIT_TASK2_OK = push_bit 1 1"

section \<open>The queue and the event group\<close>

text \<open>
  Modelled from the spec: the queue primitives \<^verbatim>\<open>xQueueCreate\<close>, \<^verbatim>\<open>xQueueSend\<close>,
  \<^verbatim>\<open>xQueueReceive\<close> and \<^verbatim>\<open>xQueueReset\<close> belong to the kernel the program is
  linked with; their code is not part of main.c. They follow the Channel contract of the
  specification (section 4.1) with the arguments main.c passes: the queue is created with
  \<^verbatim>\<open>xQueueCreate(1, sizeof(dado_t *))\<close>, so a slot holds a pointer, copied in by a send
  and copied out by a receive; \<^verbatim>\<open>xQueueSend\<close> is called with zero ticks to wait, so it
  returns at once, with \<^verbatim>\<open>errQUEUE_FULL\<close> when there is no free slot.
  \<^verbatim>\<open>xQueueReceive\<close> is called with a wait of 1000 ms: the model gives the value it
  returns when the wait ends, an item if one is queued and \<^verbatim>\<open>pdFALSE\<close> with the buffer
  left alone otherwise; the other tasks run while it waits. \<^verbatim>\<open>xQueueReset\<close> puts the
  queue back into its empty state. No queue operation reads or frees what a stored
  pointer points to.
\<close>

record 'a QueueDefinition =
  uxLength :: nat
  items :: "'a list"

definition xQueueCreate :: "nat \<Rightarrow> 'a QueueDefinition" where
  "xQueueCreate uxQueueLength = \<lparr>uxLength = uxQueueLength, items = []\<rparr>"

definition xQueueSend :: "'a QueueDefinition \<Rightarrow> 'a \<Rightarrow> BaseType_t \<times> 'a QueueDefinition" where
  "xQueueSend q x =
     (if length (items q) < uxLength q
      then (pdTRUE, q\<lparr>items := items q @ [x]\<rparr>)
      else (errQUEUE_FULL, q))"

definition xQueueReceive ::
  "'a QueueDefinition \<Rightarrow> BaseType_t \<times> 'a option \<times> 'a QueueDefinition" where
  "xQueueReceive q =
     (case items q of
        [] \<Rightarrow> (pdFALSE, None, q)
      | x # xs \<Rightarrow> (pdTRUE, Some x, q\<lparr>items := xs\<rparr>))"

definition xQueueReset :: "'a QueueDefinition \<Rightarrow> 'a QueueDefinition" where
  "xQueueReset q = q\<lparr>items := []\<rparr>"

text \<open>
  Modelled from the spec: the event-group primitives \<^verbatim>\<open>xEventGroupCreate\<close>,
  \<^verbatim>\<open>xEventGroupSetBits\<close> and \<^verbatim>\<open>xEventGroupWaitBits\<close> are kernel code as well. They
  follow the LivenessSignal contract (section 4.2): setting bits is an OR into the group;
  a wait returns the value of the group at the moment it wakes, and, when the wait
  condition holds and \<^verbatim>\<open>xClearOnExit\<close> is set, clears the bits waited for in the same
  atomic step. A wait that wakes with its condition unmet has timed out. The length of
  the wait is not modelled: the other tasks run before the call returns.
\<close>

definition xEventGroupCreate :: EventBits_t where
  "xEventGroupCreate = 0"

definition xEventGroupSetBits :: "EventBits_t \<Rightarrow> EventBits_t \<Rightarrow> EventBits_t" where
  "xEventGroupSetBits uxEventBits uxBitsToSet = uxEventBits OR uxBitsToSet"

definition xEventGroupWaitBits ::
  "EventBits_t \<Rightarrow> EventBits_t \<Rightarrow> BaseType_t \<Rightarrow> BaseType_t \<Rightarrow> EventBits_t \<times> EventBits_t" where
  "xEventGroupWaitBits uxEventBits uxBitsToWaitFor xClearOnExit xWaitForAllBits =
     (let met = (if xWaitForAllBits \<noteq> pdFALSE
                 then uxEventBits AND uxBitsToWaitFor = uxBitsToWaitFor
                 else uxEventBits AND uxBitsToWaitFor \<noteq> 0)
      in (uxEventBits,
          if met \<and> xClearOnExit \<noteq> pdFALSE
          then uxEventBits AND NOT uxBitsToWaitFor
          else uxEventBits))"

section \<open>The state of the program and what it does to the outside\<close>

text \<open>
  Every call that leaves main.c is recorded, in order, in a trace: a log line for each
  \<^verbatim>\<open>printf\<close> (named after its tag, with the numbers it prints), the watchdog calls,
  the delays, the heap calls and the calls on the queue and the event group with the
  value they returned. The two numbers of a \<^verbatim>\<open>[TX]\<close> line are read from the item after
  it was handed to the queue; each is \<open>None\<close> when the block is no longer live at that
  moment, for then C does not say what is read.
\<close>

datatype TaskHandle_t = hTask1 | hTask2 | hTask3

datatype message =
    Iniciando
  | ERRO_alocacao_Task1
  | FILA_cheia c_int c_int
  | TX "c_int option" "c_int option"
  | ERRO_alocacao_receptor
  | RX c_int c_int
  | FILA_nenhum_dado c_int string
  | ALERTA
  | RECUPERACAO
  | SUP_OK
  | SUP_apenas_Task1
  | SUP_apenas_Task2
  | FALHA_nenhuma

datatype event =
    Printf message
  | Malloc addr
  | Free addr
  | QueueSend addr BaseType_t
  | QueueReceive BaseType_t
  | QueueReset
  | SetBits EventBits_t
  | WaitBits EventBits_t
  | WdtInit nat
  | WdtAdd TaskHandle_t
  | WdtReset TaskHandle_t
  | Delay TaskHandle_t nat

text \<open>
  The globals \<^verbatim>\<open>fila\<close> and \<^verbatim>\<open>event_supervisor\<close>, the heap, and the locals of the
  tasks: \<^verbatim>\<open>seq\<close> and \<^verbatim>\<open>dados\<close> of Task1, \<^verbatim>\<open>dados_recebidos\<close> and
  \<^verbatim>\<open>timeout\<close> of Task2. The heap is the list of live blocks and the contents of
  memory. Task2 waits inside \<^verbatim>\<open>xQueueReceive\<close> and acts on the result afterwards,
  and the other tasks run in between, so its cycle is two steps: \<open>received\<close> is
  \<open>None\<close> when Task2 is about to call \<^verbatim>\<open>xQueueReceive\<close> and \<open>Some r\<close> when the call
  has returned \<open>r\<close> and the branch on it has not run yet. The cycle of Task1 is two
  steps as well, cut at the return of \<^verbatim>\<open>xQueueSend\<close>: once the send has succeeded the
  item belongs to the receiver, which may run, and free it, before Task1 goes on.
  \<open>sent\<close> is \<open>None\<close> when Task1 is at the top of its loop and \<open>Some r\<close> when
  \<^verbatim>\<open>xQueueSend\<close> has returned \<open>r\<close> and the branch on it has not run yet.
\<close>

record system =
  live :: "addr list"
  mem :: "addr \<Rightarrow> dado_t"
  fila :: "addr QueueDefinition"
  event_supervisor :: EventBits_t
  seq :: c_int
  dados :: addr
  sent :: "BaseType_t option"
  dados_recebidos :: addr
  timeout :: c_int
  received :: "BaseType_t option"
  trace :: "event list"

definition emit :: "event \<Rightarrow> system \<Rightarrow> system" where
  "emit e s = s\<lparr>trace := trace s @ [e]\<rparr>"

definition printf :: "message \<Rightarrow> system \<Rightarrow> system" where
  "printf m s = emit (Printf m) s"

definition esp_task_wdt_reset :: "TaskHandle_t \<Rightarrow> system \<Rightarrow> system" where
  "esp_task_wdt_reset h s = emit (WdtReset h) s"

definition vTaskDelay :: "TaskHandle_t \<Rightarrow> nat \<Rightarrow> system \<Rightarrow> system" where
  "vTaskDelay h ms s = emit (Delay h ms) s"

text \<open>
  \<^verbatim>\<open>malloc\<close> either fails and returns \<^verbatim>\<open>NULL\<close> or returns a block that is not live;
  which of the two is the caller's first argument. The block handed out is the one
  after the highest live address. \<^verbatim>\<open>free(NULL)\<close> does nothing; the trace keeps every
  call, so a block freed twice shows there.
\<close>

definition malloc :: "bool \<Rightarrow> system \<Rightarrow> addr \<times> system" where
  "malloc ok s =
     (if ok
      then (let p = Suc (fold max (live s) 0)
            in (p, emit (Malloc p) (s\<lparr>live := p # live s\<rparr>)))
      else (NULL, emit (Malloc NULL) s))"

definition free :: "addr \<Rightarrow> system \<Rightarrow> system" where
  "free p s = emit (Free p) (s\<lparr>live := removeAll p (live s)\<rparr>)"

text \<open>
  A read through a pointer when the block may have been freed already: the contents of
  the block while it is live, no defined value afterwards.
\<close>

definition load :: "addr \<Rightarrow> system \<Rightarrow> dado_t option" where
  "load p s = (if p \<in> set (live s) then Some (mem s p) else None)"

definition emitted :: "system \<Rightarrow> system \<Rightarrow> event list" where
  "emitted s s' = drop (length (trace s)) (trace s')"

section \<open>Task1: the generator\<close>

text \<open>
  The first part of the body of the \<^verbatim>\<open>for(;;)\<close> of Task1, lines 36 to 48, up to the
  return of \<^verbatim>\<open>xQueueSend\<close>. When \<^verbatim>\<open>malloc\<close> fails the cycle ends here, with the
  \<^verbatim>\<open>continue\<close> of line 40.
\<close>

definition Task1_send :: "bool \<Rightarrow> system \<Rightarrow> system" where
  "Task1_send alloc s =
     (case malloc alloc s of (p, s0) \<Rightarrow>
        let s1 = s0\<lparr>dados := p\<rparr>
        in if dados s1 = NULL then
             vTaskDelay hTask1 1000 (printf ERRO_alocacao_Task1 (s1\<lparr>sent := None\<rparr>))
           else
             let s2 = s1\<lparr>mem := (mem s1)(dados s1 := (mem s1 (dados s1))\<lparr>id_dado := seq s1\<rparr>),
                         seq := seq s1 + 1\<rparr>;
                 s3 = s2\<lparr>mem := (mem s2)(dados s2 :=
                                 (mem s2 (dados s2))\<lparr>valor := id_dado (mem s2 (dados s2))\<rparr>)\<rparr>
             in case xQueueSend (fila s3) (dados s3) of (r, q) \<Rightarrow>
                  emit (QueueSend (dados s3) r) (s3\<lparr>fila := q, sent := Some r\<rparr>))"

text \<open>
  The rest of the body, lines 48 to 58, for the value \<open>r\<close> that \<^verbatim>\<open>xQueueSend\<close>
  returned. After a failed send the item is still Task1's own. After a successful send
  line 53 reads \<^verbatim>\<open>dados->valor\<close> and \<^verbatim>\<open>dados->id\<close> from a block that is no longer
  Task1's.
\<close>

definition Task1_after_send :: "BaseType_t \<Rightarrow> system \<Rightarrow> system" where
  "Task1_after_send r s =
     (let s1 = (if r \<noteq> pdTRUE then
                  let s' = printf (FILA_cheia (valor (mem s (dados s))) (id_dado (mem s (dados s)))) s
                  in free (dados s') s'
                else
                  let s' = emit (SetBits BIT_TASK1_OK)
                             (s\<lparr>event_supervisor :=
                                  xEventGroupSetBits (event_supervisor s) BIT_TASK1_OK\<rparr>)
                  in printf (TX (map_option valor (load (dados s') s'))
                                (map_option id_dado (load (dados s') s'))) s');
          s2 = esp_task_wdt_reset hTask1 s1
      in vTaskDelay hTask1 1000 s2)"

text \<open>
  A whole cycle of Task1 when no other task runs between its two parts. The scheduler
  below does not run it as one step: it runs the two parts one at a time, and any other
  task between them.
\<close>

definition Task1_cycle :: "bool \<Rightarrow> system \<Rightarrow> system" where
  "Task1_cycle alloc s =
     (let s1 = Task1_send alloc s
      in case sent s1 of
           None \<Rightarrow> s1
         | Some r \<Rightarrow> (Task1_after_send r s1)\<lparr>sent := None\<rparr>)"

section \<open>Task2: the receiver\<close>

text \<open>The call of \<^verbatim>\<open>xQueueReceive\<close> on line 71, up to its return.\<close>

definition Task2_receive :: "system \<Rightarrow> system" where
  "Task2_receive s =
     (case xQueueReceive (fila s) of (r, buf, q) \<Rightarrow>
        emit (QueueReceive r)
          (s\<lparr>fila := q,
             dados_recebidos := (case buf of Some p \<Rightarrow> p | None \<Rightarrow> dados_recebidos s),
             received := Some r\<rparr>))"

text \<open>
  The rest of the body (lines 72 to 112), for the value \<open>r\<close> that \<^verbatim>\<open>xQueueReceive\<close>
  returned; \<open>alloc\<close> says whether the \<^verbatim>\<open>malloc\<close> of the working copy succeeds. The
  tasks run only when \<^verbatim>\<open>app_main\<close> has created the queue, so the test \<^verbatim>\<open>if (fila)\<close>
  on line 109 is true.
\<close>

definition Task2_body :: "BaseType_t \<Rightarrow> bool \<Rightarrow> system \<Rightarrow> system" where
  "Task2_body r alloc s =
     (if r = pdTRUE then
        (case malloc alloc s of (tmp, s1) \<Rightarrow>
           let s2 = (if tmp = NULL then printf ERRO_alocacao_receptor s1
                     else
                       let s' = s1\<lparr>mem := (mem s1)(tmp := mem s1 (dados_recebidos s1))\<rparr>;
                           s'' = printf (RX (valor (mem s' tmp)) (id_dado (mem s' tmp))) s'
                       in free tmp s'');
               s3 = (if dados_recebidos s2 \<noteq> NULL
                     then (free (dados_recebidos s2) s2)\<lparr>dados_recebidos := NULL\<rparr>
                     else s2);
               s4 = emit (SetBits BIT_TASK2_OK)
                      (s3\<lparr>event_supervisor :=
                            xEventGroupSetBits (event_supervisor s3) BIT_TASK2_OK\<rparr>);
               s5 = s4\<lparr>timeout := 0\<rparr>
           in esp_task_wdt_reset hTask2 s5)
      else
        let s1 = s\<lparr>timeout := timeout s + 1\<rparr>;
            s2 = printf (FILA_nenhum_dado (timeout s1) (if timeout s1 = 1 then [] else ''s'')) s1;
            s3 = (if timeout s2 = 3 then printf ALERTA s2 else s2)
        in if 5 \<le>s timeout s3 then
             let s4 = printf RECUPERACAO s3;
                 s5 = emit QueueReset (s4\<lparr>fila := xQueueReset (fila s4)\<rparr>)
             in s5\<lparr>timeout := 0\<rparr>
           else s3)"

text \<open>
  A whole cycle of Task2 when no other task runs between its two parts; the scheduler
  runs the two parts one at a time as well.
\<close>

definition Task2_cycle :: "bool \<Rightarrow> system \<Rightarrow> system" where
  "Task2_cycle alloc s =
     (let s1 = Task2_receive s
      in case received s1 of
           None \<Rightarrow> s1
         | Some r \<Rightarrow> (Task2_body r alloc s1)\<lparr>received := None\<rparr>)"

section \<open>Task3: the supervisor\<close>

definition Task3_cycle :: "system \<Rightarrow> system" where
  "Task3_cycle s =
     (case xEventGroupWaitBits (event_supervisor s) (BIT_TASK1_OK OR BIT_TASK2_OK) pdTRUE pdFALSE
      of (bits, eg) \<Rightarrow>
        let s1 = emit (WaitBits bits) (s\<lparr>event_supervisor := eg\<rparr>);
            s2 = (if bits AND BIT_TASK1_OK \<noteq> 0 \<and> bits AND BIT_TASK2_OK \<noteq> 0
                  then printf SUP_OK s1
                  else if bits AND BIT_TASK1_OK \<noteq> 0 then printf SUP_apenas_Task1 s1
                  else if bits AND BIT_TASK2_OK \<noteq> 0 then printf SUP_apenas_Task2 s1
                  else printf FALHA_nenhuma s1);
            s3 = esp_task_wdt_reset hTask3 s2
        in vTaskDelay hTask3 2000 s3)"

section \<open>app_main and the running system\<close>

text \<open>
  The state in which \<^verbatim>\<open>app_main\<close> leaves the system when the queue and the event
  group were created (otherwise it restarts the device and no task runs): an empty queue
  of length 1, no event bit set, each task at the top of its loop with its locals
  initialised, all three tasks subscribed to the watchdog.
\<close>

definition app_main :: system where
  "app_main =
     \<lparr>live = [],
      mem = (\<lambda>_. \<lparr>id_dado = 0, valor = 0\<rparr>),
      fila = xQueueCreate 1,
      event_supervisor = xEventGroupCreate,
      seq = 1,
      dados = NULL,
      sent = None,
      dados_recebidos = NULL,
      timeout = 0,
      received = None,
      trace = [Printf Iniciando, WdtInit 5000, WdtAdd hTask1, WdtAdd hTask2, WdtAdd hTask3]\<rparr>"

text \<open>
  The scheduler picks a task and the task runs its next step: one of the two parts of a
  cycle of Task1 or of Task2, or a cycle of Task3. The tasks have equal priority and are
  preempted, so every order is possible. The boolean is the outcome of the \<^verbatim>\<open>malloc\<close>
  in that step, if it makes one. A cycle of Task3 takes its path from one call on a
  shared object, \<^verbatim>\<open>xEventGroupWaitBits\<close>, which is atomic in the kernel, and touches
  no memory another task owns. Time is not part of the state: a wait ends when the
  scheduler lets the waiting task go on.
\<close>

datatype sched = Run_Task1 bool | Run_Task2 bool | Run_Task3

fun exec :: "sched \<Rightarrow> system \<Rightarrow> system" where
  "exec (Run_Task1 alloc) s =
     (case sent s of
        None \<Rightarrow> Task1_send alloc s
      | Some r \<Rightarrow> (Task1_after_send r s)\<lparr>sent := None\<rparr>)"
| "exec (Run_Task2 alloc) s =
     (case received s of
        None \<Rightarrow> Task2_receive s
      | Some r \<Rightarrow> (Task2_body r alloc s)\<lparr>received := None\<rparr>)"
| "exec Run_Task3 s = Task3_cycle s"

definition run :: "sched list \<Rightarrow> system \<Rightarrow> system" where
  "run ss s = fold exec ss s"

section \<open>Sequences of operations on the queue and on the event group\<close>

text \<open>
  The operations main.c performs on its queue, in any order and any number: the send of
  Task1, the receive and the reset of Task2, starting from the queue \<^verbatim>\<open>app_main\<close>
  creates.
\<close>

datatype channel_op = Try_send addr | Receive | Reset

fun channel_apply :: "channel_op \<Rightarrow> addr QueueDefinition \<Rightarrow> addr QueueDefinition" where
  "channel_apply (Try_send x) q = snd (xQueueSend q x)"
| "channel_apply Receive q = snd (snd (xQueueReceive q))"
| "channel_apply Reset q = xQueueReset q"

definition channel_run :: "channel_op list \<Rightarrow> addr QueueDefinition" where
  "channel_run ops = fold channel_apply ops (xQueueCreate 1)"

text \<open>
  The two liveness flags and the operations on them: a task signals its flag
  (\<^verbatim>\<open>xEventGroupSetBits\<close> with its bit), the supervisor observes with the call of Task3,
  \<^verbatim>\<open>xEventGroupWaitBits(event_supervisor, BIT_TASK1_OK | BIT_TASK2_OK, pdTRUE, pdFALSE, ...)\<close>.
  \<open>observations\<close> lists the values the successive observations return.
\<close>

datatype flag = producer_ok | consumer_ok

fun flag_bit :: "flag \<Rightarrow> EventBits_t" where
  "flag_bit producer_ok = BIT_TASK1_OK"
| "flag_bit consumer_ok = BIT_TASK2_OK"

datatype liveness_op = Signal flag | Observe_and_clear

fun observations :: "EventBits_t \<Rightarrow> liveness_op list \<Rightarrow> EventBits_t list" where
  "observations b [] = []"
| "observations b (Signal f # ops) = observations (xEventGroupSetBits b (flag_bit f)) ops"
| "observations b (Observe_and_clear # ops) =
     (case xEventGroupWaitBits b (BIT_TASK1_OK OR BIT_TASK2_OK) pdTRUE pdFALSE of
        (r, b') \<Rightarrow> r # observations b' ops)"

text \<open>
  What the specification says an observation reports: the set of flags signalled since
  the previous observation, which it clears; nothing when none was signalled (the wait
  timed out). \<open>bits_of\<close> is that set as a value of the event group.
\<close>

fun reported :: "flag set \<Rightarrow> liveness_op list \<Rightarrow> flag set list" where
  "reported pending [] = []"
| "reported pending (Signal f # ops) = reported (insert f pending) ops"
| "reported pending (Observe_and_clear # ops) = pending # reported {} ops"

definition bits_of :: "flag set \<Rightarrow> EventBits_t" where
  "bits_of F = (if producer_ok \<in> F then BIT_TASK1_OK else 0) OR
               (if consumer_ok \<in> F then BIT_TASK2_OK else 0)"

section \<open>Reading the trace\<close>

text \<open>
  Whether a send in a list of events returned \<^verbatim>\<open>pdTRUE\<close>; how many \<^verbatim>\<open>[RX]\<close> lines
  a list of events holds.
\<close>

fun send_succeeded :: "event list \<Rightarrow> bool" where
  "send_succeeded [] = False"
| "send_succeeded (QueueSend p r # es) = (r = pdTRUE \<or> send_succeeded es)"
| "send_succeeded (e # es) = send_succeeded es"

fun rx_logged :: "event list \<Rightarrow> nat" where
  "rx_logged [] = 0"
| "rx_logged (Printf (RX v i) # es) = Suc (rx_logged es)"
| "rx_logged (e # es) = rx_logged es"

text \<open>
  The items Task1 creates in a run, in order: at every step in which Task1 allocates a
  block and fills it (lines 36 to 45), the contents of that block when the step ends,
  which is when \<^verbatim>\<open>xQueueSend\<close> returns and before any other task has run. A step of
  Task1 whose \<^verbatim>\<open>malloc\<close> fails creates no item, and neither does the second part of
  a cycle.
\<close>

fun creations :: "sched list \<Rightarrow> system \<Rightarrow> dado_t list" where
  "creations [] s = []"
| "creations (a # ss) s =
     (if a = Run_Task1 True \<and> sent s = None then [mem (exec a s) (dados (exec a s))] else [])
     @ creations ss (exec a s)"

text \<open>
  What the specification calls the number of consecutive timeouts, read from the
  history: the receives that returned \<^verbatim>\<open>pdFALSE\<close> since the last receive that returned
  an item and since the last reset of the queue.
\<close>

fun count_timeouts :: "nat \<Rightarrow> event list \<Rightarrow> nat" where
  "count_timeouts n [] = n"
| "count_timeouts n (QueueReceive r # es) = count_timeouts (if r = pdTRUE then 0 else Suc n) es"
| "count_timeouts n (QueueReset # es) = count_timeouts 0 es"
| "count_timeouts n (e # es) = count_timeouts n es"

text \<open>
  The classification of section 4.5 of the specification, with the log line main.c
  prints for each state of health.
\<close>

definition health :: "bool \<Rightarrow> bool \<Rightarrow> message" where
  "health producer consumer =
     (if producer \<and> consumer then SUP_OK
      else if producer then SUP_apenas_Task1
      else if consumer then SUP_apenas_Task2
      else FALHA_nenhuma)"

text \<open>
  A schedule in which Task1 cannot allocate for five cycles while Task2 waits in vain;
  the fifth wait of Task2 ends, Task1 then allocates and sends item 1 and finishes its
  cycle, and Task2 goes on with the branch for the timeout it has already been handed.
\<close>

definition leak_schedule :: "sched list" where
  "leak_schedule =
     [Run_Task1 False, Run_Task2 True, Run_Task2 True,
      Run_Task1 False, Run_Task2 True, Run_Task2 True,
      Run_Task1 False, Run_Task2 True, Run_Task2 True,
      Run_Task1 False, Run_Task2 True, Run_Task2 True,
      Run_Task1 False, Run_Task2 True, Run_Task1 True, Run_Task1 True, Run_Task2 True]"

section \<open>Invariants\<close>

text \<open>
  The invariant of the counter: it is one of 0 to 4; when Task2 is about to receive, it
  is the number of consecutive timeouts; when a receive has just timed out, it is one
  behind, and the number of consecutive timeouts is between 1 and 5.
\<close>

definition retry_inv :: "system \<Rightarrow> bool" where
  "retry_inv s =
     (timeout s \<in> {0, 1, 2, 3, 4} \<and>
      (if received s = None
       then timeout s = of_nat (count_timeouts 0 (trace s)) \<and> count_timeouts 0 (trace s) < 5
       else if received s = Some pdTRUE
       then count_timeouts 0 (trace s) = 0
       else timeout s + 1 = of_nat (count_timeouts 0 (trace s))
            \<and> 1 \<le> count_timeouts 0 (trace s) \<and> count_timeouts 0 (trace s) \<le> 5))"

text \<open>
  A block that is live, is not in the queue, is not the one Task2 holds and is not one
  that Task1 is about to drop stays so, and is never passed to \<^verbatim>\<open>free\<close>: Task1 frees
  only the block whose send has just failed, Task2 only its working copy and the item it
  has taken from the queue.
\<close>

definition lost :: "addr \<Rightarrow> system \<Rightarrow> bool" where
  "lost p s =
     (p \<in> set (live s) \<and> p \<notin> set (items (fila s)) \<and> dados_recebidos s \<noteq> p \<and> p \<noteq> NULL
      \<and> (sent s = None \<or> sent s = Some pdTRUE \<or> dados s \<noteq> p)
      \<and> count_list (trace s) (Free p) = 0)"

section \<open>Properties\<close>

subsection \<open>Each step in closed form\<close>

lemma le_fold_max: "a \<in> set xs \<Longrightarrow> a \<le> fold max xs (m::nat)"
proof (induction xs arbitrary: m)
  case Nil
  then show ?case by simp
next
  case (Cons x xs)
  have "m \<le> fold max xs m" for m :: nat and xs
    by (induction xs arbitrary: m) (auto intro: order_trans [OF max.cobounded2])
  from this [of "max x m" xs] Cons show ?case
    by auto
qed

lemma fresh_not_live: "Suc (fold max xs 0) \<notin> set xs"
  using le_fold_max [of "Suc (fold max xs 0)" xs 0] by auto

lemma dado_t_updates: "r\<lparr>id_dado := a, valor := b\<rparr> = \<lparr>id_dado = a, valor = b\<rparr>"
  by (cases r) simp

lemma sle_5: "(5 \<le>s (x::32 word)) = (5 \<le> sint x)"
  by (simp add: word_sle_eq)

lemma pdFALSE_neq_pdTRUE: "pdFALSE \<noteq> pdTRUE"
  by (simp add: pdFALSE_def pdTRUE_def)

lemma Task1_send_unfold:
  "Task1_send alloc s =
     (if \<not> alloc then
        s\<lparr>dados := NULL, sent := None,
           trace := trace s @ [Malloc NULL, Printf ERRO_alocacao_Task1, Delay hTask1 1000]\<rparr>
      else
        s\<lparr>live := Suc (fold max (live s) 0) # live s,
           mem := (mem s)(Suc (fold max (live s) 0) := \<lparr>id_dado = seq s, valor = seq s\<rparr>),
           fila := (if length (items (fila s)) < uxLength (fila s)
                    then (fila s)\<lparr>items := items (fila s) @ [Suc (fold max (live s) 0)]\<rparr>
                    else fila s),
           seq := seq s + 1,
           dados := Suc (fold max (live s) 0),
           sent := Some (if length (items (fila s)) < uxLength (fila s)
                         then pdTRUE else errQUEUE_FULL),
           trace := trace s @
             [Malloc (Suc (fold max (live s) 0)),
              QueueSend (Suc (fold max (live s) 0))
                (if length (items (fila s)) < uxLength (fila s) then pdTRUE else errQUEUE_FULL)]\<rparr>)"
  by (simp add: Task1_send_def malloc_def emit_def printf_def vTaskDelay_def xQueueSend_def
      NULL_def Let_def dado_t_updates)

lemma Task1_after_send_unfold:
  "Task1_after_send r s =
     (if r = pdTRUE then
        s\<lparr>event_supervisor := event_supervisor s OR BIT_TASK1_OK,
           trace := trace s @
             [SetBits BIT_TASK1_OK,
              Printf (TX (map_option valor (load (dados s) s))
                         (map_option id_dado (load (dados s) s))),
              WdtReset hTask1, Delay hTask1 1000]\<rparr>
      else
        s\<lparr>live := removeAll (dados s) (live s),
           trace := trace s @
             [Printf (FILA_cheia (valor (mem s (dados s))) (id_dado (mem s (dados s)))),
              Free (dados s),
              WdtReset hTask1, Delay hTask1 1000]\<rparr>)"
  by (simp add: Task1_after_send_def free_def emit_def printf_def vTaskDelay_def
      esp_task_wdt_reset_def xEventGroupSetBits_def load_def Let_def)

lemma errQUEUE_FULL_neq_pdTRUE: "errQUEUE_FULL \<noteq> pdTRUE"
  by (simp add: errQUEUE_FULL_def pdTRUE_def)

lemma Task1_cycle_unfold:
  "Task1_cycle alloc s =
     (if \<not> alloc then
        s\<lparr>dados := NULL, sent := None,
           trace := trace s @ [Malloc NULL, Printf ERRO_alocacao_Task1, Delay hTask1 1000]\<rparr>
      else if length (items (fila s)) < uxLength (fila s) then
        s\<lparr>live := Suc (fold max (live s) 0) # live s,
           mem := (mem s)(Suc (fold max (live s) 0) := \<lparr>id_dado = seq s, valor = seq s\<rparr>),
           fila := (fila s)\<lparr>items := items (fila s) @ [Suc (fold max (live s) 0)]\<rparr>,
           event_supervisor := event_supervisor s OR BIT_TASK1_OK,
           seq := seq s + 1,
           dados := Suc (fold max (live s) 0),
           sent := None,
           trace := trace s @
             [Malloc (Suc (fold max (live s) 0)),
              QueueSend (Suc (fold max (live s) 0)) pdTRUE,
              SetBits BIT_TASK1_OK,
              Printf (TX (Some (seq s)) (Some (seq s))),
              WdtReset hTask1, Delay hTask1 1000]\<rparr>
      else
        s\<lparr>mem := (mem s)(Suc (fold max (live s) 0) := \<lparr>id_dado = seq s, valor = seq s\<rparr>),
           seq := seq s + 1,
           dados := Suc (fold max (live s) 0),
           sent := None,
           trace := trace s @
             [Malloc (Suc (fold max (live s) 0)),
              QueueSend (Suc (fold max (live s) 0)) errQUEUE_FULL,
              Printf (FILA_cheia (seq s) (seq s)),
              Free (Suc (fold max (live s) 0)),
              WdtReset hTask1, Delay hTask1 1000]\<rparr>)"
  using fresh_not_live [of "live s"]
  by (simp add: Task1_cycle_def Task1_send_unfold Task1_after_send_unfold load_def
      errQUEUE_FULL_neq_pdTRUE)

lemma Task2_receive_unfold:
  "Task2_receive s =
     (case items (fila s) of
        [] \<Rightarrow> s\<lparr>received := Some pdFALSE, trace := trace s @ [QueueReceive pdFALSE]\<rparr>
      | p # ps \<Rightarrow>
          s\<lparr>fila := (fila s)\<lparr>items := ps\<rparr>, dados_recebidos := p,
             received := Some pdTRUE, trace := trace s @ [QueueReceive pdTRUE]\<rparr>)"
  by (simp add: Task2_receive_def xQueueReceive_def emit_def split: list.splits)

lemma Task2_body_timeout_unfold:
  "r \<noteq> pdTRUE \<Longrightarrow> Task2_body r alloc s =
     (if 5 \<le>s timeout s + 1 then
        s\<lparr>fila := (fila s)\<lparr>items := []\<rparr>,
           timeout := 0,
           trace := trace s @
             [Printf (FILA_nenhum_dado (timeout s + 1) (if timeout s + 1 = 1 then [] else ''s''))] @
             (if timeout s + 1 = 3 then [Printf ALERTA] else []) @
             [Printf RECUPERACAO, QueueReset]\<rparr>
      else
        s\<lparr>timeout := timeout s + 1,
           trace := trace s @
             [Printf (FILA_nenhum_dado (timeout s + 1) (if timeout s + 1 = 1 then [] else ''s''))] @
             (if timeout s + 1 = 3 then [Printf ALERTA] else [])\<rparr>)"
  by (simp add: Task2_body_def emit_def printf_def xQueueReset_def Let_def)

lemma Task2_body_received_unfold:
  "Task2_body pdTRUE alloc s =
     s\<lparr>live := (if dados_recebidos s \<noteq> NULL then removeAll (dados_recebidos s) (live s)
                 else live s),
        mem := (if alloc then (mem s)(Suc (fold max (live s) 0) := mem s (dados_recebidos s))
                else mem s),
        event_supervisor := event_supervisor s OR BIT_TASK2_OK,
        dados_recebidos := NULL,
        timeout := 0,
        trace := trace s @
          (if alloc
           then [Malloc (Suc (fold max (live s) 0)),
                 Printf (RX (valor (mem s (dados_recebidos s))) (id_dado (mem s (dados_recebidos s)))),
                 Free (Suc (fold max (live s) 0))]
           else [Malloc NULL, Printf ERRO_alocacao_receptor]) @
          (if dados_recebidos s \<noteq> NULL then [Free (dados_recebidos s)] else []) @
          [SetBits BIT_TASK2_OK, WdtReset hTask2]\<rparr>"
  using fresh_not_live [of "live s"]
  by (simp add: Task2_body_def malloc_def free_def emit_def printf_def
      esp_task_wdt_reset_def xEventGroupSetBits_def NULL_def Let_def)

lemma Task3_cycle_unfold:
  "Task3_cycle s =
     s\<lparr>event_supervisor :=
          (if event_supervisor s AND (BIT_TASK1_OK OR BIT_TASK2_OK) \<noteq> 0
           then event_supervisor s AND NOT (BIT_TASK1_OK OR BIT_TASK2_OK)
           else event_supervisor s),
        trace := trace s @
          [WaitBits (event_supervisor s),
           Printf (health (event_supervisor s AND BIT_TASK1_OK \<noteq> 0)
                          (event_supervisor s AND BIT_TASK2_OK \<noteq> 0)),
           WdtReset hTask3, Delay hTask3 2000]\<rparr>"
  by (simp add: Task3_cycle_def xEventGroupWaitBits_def emit_def printf_def
      esp_task_wdt_reset_def vTaskDelay_def Let_def pdTRUE_def pdFALSE_def health_def)

lemma run_Nil: "run [] s = s"
  by (simp add: run_def)

lemma run_Cons: "run (a # ss) s = run ss (exec a s)"
  by (simp add: run_def)

lemma run_snoc: "run (ss @ [a]) s = exec a (run ss s)"
  by (simp add: run_def)

lemma Task1_cycle_emitted:
  "emitted s (Task1_cycle alloc s) =
     (if \<not> alloc then [Malloc NULL, Printf ERRO_alocacao_Task1, Delay hTask1 1000]
      else if length (items (fila s)) < uxLength (fila s)
      then [Malloc (Suc (fold max (live s) 0)),
            QueueSend (Suc (fold max (live s) 0)) pdTRUE,
            SetBits BIT_TASK1_OK,
            Printf (TX (Some (seq s)) (Some (seq s))),
            WdtReset hTask1, Delay hTask1 1000]
      else [Malloc (Suc (fold max (live s) 0)),
            QueueSend (Suc (fold max (live s) 0)) errQUEUE_FULL,
            Printf (FILA_cheia (seq s) (seq s)),
            Free (Suc (fold max (live s) 0)),
            WdtReset hTask1, Delay hTask1 1000])"
  by (simp add: emitted_def Task1_cycle_unfold)

lemma Task1_send_emitted:
  "emitted s (Task1_send alloc s) =
     (if \<not> alloc then [Malloc NULL, Printf ERRO_alocacao_Task1, Delay hTask1 1000]
      else [Malloc (Suc (fold max (live s) 0)),
            QueueSend (Suc (fold max (live s) 0))
              (if length (items (fila s)) < uxLength (fila s) then pdTRUE else errQUEUE_FULL)])"
  by (simp add: emitted_def Task1_send_unfold)

lemma Task1_after_send_emitted:
  "emitted s (Task1_after_send r s) =
     (if r = pdTRUE
      then [SetBits BIT_TASK1_OK,
            Printf (TX (map_option valor (load (dados s) s))
                       (map_option id_dado (load (dados s) s))),
            WdtReset hTask1, Delay hTask1 1000]
      else [Printf (FILA_cheia (valor (mem s (dados s))) (id_dado (mem s (dados s)))),
            Free (dados s),
            WdtReset hTask1, Delay hTask1 1000])"
  by (simp add: emitted_def Task1_after_send_unfold)

lemma Task2_receive_emitted:
  "emitted s (Task2_receive s) = [QueueReceive (if items (fila s) = [] then pdFALSE else pdTRUE)]"
  by (simp add: emitted_def Task2_receive_unfold split: list.splits)

lemma Task2_body_emitted:
  "emitted s (Task2_body r alloc s) =
     (if r = pdTRUE then
        (if alloc
         then [Malloc (Suc (fold max (live s) 0)),
               Printf (RX (valor (mem s (dados_recebidos s))) (id_dado (mem s (dados_recebidos s)))),
               Free (Suc (fold max (live s) 0))]
         else [Malloc NULL, Printf ERRO_alocacao_receptor]) @
        (if dados_recebidos s \<noteq> NULL then [Free (dados_recebidos s)] else []) @
        [SetBits BIT_TASK2_OK, WdtReset hTask2]
      else
        [Printf (FILA_nenhum_dado (timeout s + 1) (if timeout s + 1 = 1 then [] else ''s''))] @
        (if timeout s + 1 = 3 then [Printf ALERTA] else []) @
        (if 5 \<le>s timeout s + 1 then [Printf RECUPERACAO, QueueReset] else []))"
  by (simp add: emitted_def Task2_body_received_unfold Task2_body_timeout_unfold)

lemma Task3_cycle_emitted:
  "emitted s (Task3_cycle s) =
     [WaitBits (event_supervisor s),
      Printf (health (event_supervisor s AND BIT_TASK1_OK \<noteq> 0)
                     (event_supervisor s AND BIT_TASK2_OK \<noteq> 0)),
      WdtReset hTask3, Delay hTask3 2000]"
  by (simp add: emitted_def Task3_cycle_unfold)

lemma emitted_received_update: "emitted s (s'\<lparr>received := x\<rparr>) = emitted s s'"
  by (simp add: emitted_def)

lemma Task2_cycle_unfold:
  "Task2_cycle alloc s =
     (if items (fila s) = []
      then (Task2_body pdFALSE alloc (Task2_receive s))\<lparr>received := None\<rparr>
      else (Task2_body pdTRUE alloc (Task2_receive s))\<lparr>received := None\<rparr>)"
  by (simp add: Task2_cycle_def Task2_receive_unfold Let_def split: list.splits)

lemma Task2_body_timeout:
  "timeout (Task2_body r alloc s) =
     (if r = pdTRUE \<or> 5 \<le>s timeout s + 1 then 0 else timeout s + 1)"
  by (cases "r = pdTRUE") (simp_all add: Task2_body_received_unfold Task2_body_timeout_unfold)

lemma Task2_body_trace:
  "trace (Task2_body r alloc s) = trace s @ emitted s (Task2_body r alloc s)"
  by (cases "r = pdTRUE")
     (simp_all add: emitted_def Task2_body_received_unfold Task2_body_timeout_unfold)

lemma emitted_append: "trace s' = trace s @ xs \<Longrightarrow> emitted s s' = xs"
  by (simp add: emitted_def)

lemma Task2_receive_trace: "trace (Task2_receive s) = trace s @ emitted s (Task2_receive s)"
  by (simp add: emitted_def Task2_receive_unfold split: list.splits)

lemma Task2_cycle_emitted:
  "emitted s (Task2_cycle alloc s) =
     emitted s (Task2_receive s) @
     emitted (Task2_receive s)
       (Task2_body (if items (fila s) = [] then pdFALSE else pdTRUE) alloc (Task2_receive s))"
proof (rule emitted_append)
  have "trace (Task2_cycle alloc s) =
      trace (Task2_body (if items (fila s) = [] then pdFALSE else pdTRUE) alloc (Task2_receive s))"
    by (simp add: Task2_cycle_unfold)
  also have "\<dots> = trace (Task2_receive s) @
      emitted (Task2_receive s)
        (Task2_body (if items (fila s) = [] then pdFALSE else pdTRUE) alloc (Task2_receive s))"
    by (rule Task2_body_trace)
  finally show "trace (Task2_cycle alloc s) =
      trace s @ emitted s (Task2_receive s) @
      emitted (Task2_receive s)
        (Task2_body (if items (fila s) = [] then pdFALSE else pdTRUE) alloc (Task2_receive s))"
    by (simp only: Task2_receive_trace append_assoc)
qed

lemma Task2_body_fila:
  "fila (Task2_body r alloc s) =
     (if r \<noteq> pdTRUE \<and> 5 \<le>s timeout s + 1 then (fila s)\<lparr>items := []\<rparr> else fila s)"
  by (cases "r = pdTRUE") (simp_all add: Task2_body_received_unfold Task2_body_timeout_unfold)

lemma Task2_body_seq: "seq (Task2_body r alloc s) = seq s"
  by (cases "r = pdTRUE") (simp_all add: Task2_body_received_unfold Task2_body_timeout_unfold)

lemma Task2_body_event_supervisor:
  "event_supervisor (Task2_body r alloc s) =
     (if r = pdTRUE then event_supervisor s OR BIT_TASK2_OK else event_supervisor s)"
  by (cases "r = pdTRUE") (simp_all add: Task2_body_received_unfold Task2_body_timeout_unfold)

lemma Task2_body_live:
  "live (Task2_body r alloc s) =
     (if r = pdTRUE \<and> dados_recebidos s \<noteq> NULL
      then removeAll (dados_recebidos s) (live s) else live s)"
  by (cases "r = pdTRUE") (simp_all add: Task2_body_received_unfold Task2_body_timeout_unfold)

subsection \<open>The single-slot queue\<close>

lemma channel_apply_inv:
  "uxLength q = 1 \<and> length (items q) \<le> 1 \<Longrightarrow>
   uxLength (channel_apply op q) = 1 \<and> length (items (channel_apply op q)) \<le> 1"
  by (cases op) (auto simp: xQueueSend_def xQueueReceive_def xQueueReset_def split: list.splits)

lemma fold_channel_inv:
  "uxLength q = 1 \<and> length (items q) \<le> 1 \<Longrightarrow>
   uxLength (fold channel_apply ops q) = 1 \<and> length (items (fold channel_apply ops q)) \<le> 1"
proof (induction ops arbitrary: q)
  case Nil
  then show ?case by simp
next
  case (Cons op ops)
  from Cons.IH [OF channel_apply_inv [OF Cons.prems, of op]] show ?case
    by simp
qed

lemma channel_run_inv:
  "uxLength (channel_run ops) = 1 \<and> length (items (channel_run ops)) \<le> 1"
  unfolding channel_run_def
  by (rule fold_channel_inv) (simp add: xQueueCreate_def)

lemma fila_inv_exec:
  assumes "uxLength (fila s) = 1 \<and> length (items (fila s)) \<le> 1"
  shows "uxLength (fila (exec a s)) = 1 \<and> length (items (fila (exec a s))) \<le> 1"
proof (cases a)
  case (Run_Task1 alloc)
  with assms show ?thesis
    by (cases "sent s") (simp_all add: Task1_send_unfold Task1_after_send_unfold)
next
  case (Run_Task2 alloc)
  with assms show ?thesis
    by (cases "received s") (auto simp add: Task2_receive_unfold Task2_body_fila split: list.splits)
next
  case Run_Task3
  with assms show ?thesis by (simp add: Task3_cycle_unfold)
qed

lemma fila_inv_run:
  "uxLength (fila (run ss app_main)) = 1 \<and> length (items (fila (run ss app_main))) \<le> 1"
proof (induction ss rule: rev_induct)
  case Nil
  show ?case by (simp add: run_Nil app_main_def xQueueCreate_def)
next
  case (snoc a ss)
  then show ?case by (simp only: run_snoc fila_inv_exec)
qed

lemma Task1_cycle_fila:
  "fila (Task1_cycle alloc s) =
     (if alloc \<and> length (items (fila s)) < uxLength (fila s)
      then (fila s)\<lparr>items := items (fila s) @ [Suc (fold max (live s) 0)]\<rparr>
      else fila s)"
  by (simp add: Task1_cycle_unfold)

lemma Task1_send_fila:
  "fila (Task1_send alloc s) =
     (if alloc \<and> length (items (fila s)) < uxLength (fila s)
      then (fila s)\<lparr>items := items (fila s) @ [Suc (fold max (live s) 0)]\<rparr>
      else fila s)"
  by (simp add: Task1_send_unfold)

lemma Task1_send_sent:
  "sent (Task1_send alloc s) =
     (if alloc then Some (if length (items (fila s)) < uxLength (fila s)
                          then pdTRUE else errQUEUE_FULL)
      else None)"
  by (simp add: Task1_send_unfold)

lemma Task1_after_send_fila: "fila (Task1_after_send r s) = fila s"
  by (simp add: Task1_after_send_unfold)

text \<open>
  C1. After any sequence of sends, receives and resets on the queue of length 1, a send
  returns \<^verbatim>\<open>pdTRUE\<close> exactly when the queue is empty just before the call, and then
  the queue holds the item sent and nothing else. When the queue is occupied the send
  is still a single step that returns, with \<^verbatim>\<open>errQUEUE_FULL\<close>; the queue, and so the
  item in it, is as it was, and the item offered is not in it: it stays with the
  caller. The queue never holds more than one item. In the program, in every state the
  system reaches: the send of Task1 succeeds exactly when \<^verbatim>\<open>fila\<close> is empty, and puts
  the new item there; otherwise \<^verbatim>\<open>fila\<close> is left as it was and Task1, still the owner
  of the item, frees it. This holds of a cycle of Task1 that nothing interrupts and of
  its two parts taken apart: the part that ends with the send, and the part that acts on
  the value the send returned, which leaves \<^verbatim>\<open>fila\<close> alone and frees the item exactly
  when that value is not \<^verbatim>\<open>pdTRUE\<close>.
\<close>

theorem try_send_succeeds_iff_empty:
  "(fst (xQueueSend (channel_run ops) x) = pdTRUE) = (items (channel_run ops) = [])
   \<and> xQueueSend (channel_run ops) x =
       (if items (channel_run ops) = []
        then (pdTRUE, (channel_run ops)\<lparr>items := [x]\<rparr>)
        else (errQUEUE_FULL, channel_run ops))
   \<and> length (items (channel_run ops)) \<le> 1
   \<and> length (items (fila (run ss app_main))) \<le> 1
   \<and> send_succeeded (emitted (run ss app_main) (Task1_cycle True (run ss app_main))) =
       (items (fila (run ss app_main)) = [])
   \<and> fila (Task1_cycle True (run ss app_main)) =
       (if items (fila (run ss app_main)) = []
        then (fila (run ss app_main))\<lparr>items := [Suc (fold max (live (run ss app_main)) 0)]\<rparr>
        else fila (run ss app_main))
   \<and> count_list (emitted (run ss app_main) (Task1_cycle True (run ss app_main)))
         (Free (Suc (fold max (live (run ss app_main)) 0))) =
       (if items (fila (run ss app_main)) = [] then 0 else 1)
   \<and> send_succeeded (emitted (run ss app_main) (Task1_send True (run ss app_main))) =
       (items (fila (run ss app_main)) = [])
   \<and> sent (Task1_send True (run ss app_main)) =
       Some (if items (fila (run ss app_main)) = [] then pdTRUE else errQUEUE_FULL)
   \<and> fila (Task1_send True (run ss app_main)) =
       (if items (fila (run ss app_main)) = []
        then (fila (run ss app_main))\<lparr>items := [Suc (fold max (live (run ss app_main)) 0)]\<rparr>
        else fila (run ss app_main))
   \<and> fila (Task1_after_send r (run ss app_main)) = fila (run ss app_main)
   \<and> count_list (emitted (run ss app_main) (Task1_after_send r (run ss app_main)))
         (Free (dados (run ss app_main))) =
       (if r = pdTRUE then 0 else 1)"
proof -
  have prim: "(fst (xQueueSend (channel_run ops) x) = pdTRUE) = (items (channel_run ops) = [])
   \<and> xQueueSend (channel_run ops) x =
       (if items (channel_run ops) = []
        then (pdTRUE, (channel_run ops)\<lparr>items := [x]\<rparr>)
        else (errQUEUE_FULL, channel_run ops))
   \<and> length (items (channel_run ops)) \<le> 1"
    using channel_run_inv [of ops]
    by (cases "items (channel_run ops)") (auto simp: xQueueSend_def pdTRUE_def errQUEUE_FULL_def)
  have sys: "length (items (fila (run ss app_main))) \<le> 1
   \<and> send_succeeded (emitted (run ss app_main) (Task1_cycle True (run ss app_main))) =
       (items (fila (run ss app_main)) = [])
   \<and> fila (Task1_cycle True (run ss app_main)) =
       (if items (fila (run ss app_main)) = []
        then (fila (run ss app_main))\<lparr>items := [Suc (fold max (live (run ss app_main)) 0)]\<rparr>
        else fila (run ss app_main))
   \<and> count_list (emitted (run ss app_main) (Task1_cycle True (run ss app_main)))
         (Free (Suc (fold max (live (run ss app_main)) 0))) =
       (if items (fila (run ss app_main)) = [] then 0 else 1)"
    using fila_inv_run [of ss]
    by (cases "items (fila (run ss app_main))")
       (auto simp add: Task1_cycle_emitted Task1_cycle_fila pdTRUE_def errQUEUE_FULL_def)
  have parts: "send_succeeded (emitted (run ss app_main) (Task1_send True (run ss app_main))) =
       (items (fila (run ss app_main)) = [])
   \<and> sent (Task1_send True (run ss app_main)) =
       Some (if items (fila (run ss app_main)) = [] then pdTRUE else errQUEUE_FULL)
   \<and> fila (Task1_send True (run ss app_main)) =
       (if items (fila (run ss app_main)) = []
        then (fila (run ss app_main))\<lparr>items := [Suc (fold max (live (run ss app_main)) 0)]\<rparr>
        else fila (run ss app_main))"
    using fila_inv_run [of ss]
    by (cases "items (fila (run ss app_main))")
       (auto simp add: Task1_send_emitted Task1_send_fila Task1_send_sent
          pdTRUE_def errQUEUE_FULL_def)
  have rest: "fila (Task1_after_send r (run ss app_main)) = fila (run ss app_main)
   \<and> count_list (emitted (run ss app_main) (Task1_after_send r (run ss app_main)))
         (Free (dados (run ss app_main))) =
       (if r = pdTRUE then 0 else 1)"
    by (simp add: Task1_after_send_fila Task1_after_send_emitted)
  from prim sys parts rest show ?thesis by blast
qed

theorem try_send_succeeds_iff_empty_witness:
  "xQueueSend (channel_run [Try_send 7, Receive, Try_send 8]) 9 =
     (errQUEUE_FULL, channel_run [Try_send 7, Receive, Try_send 8])
   \<and> items (channel_run [Try_send 7, Receive, Try_send 8]) = [8]
   \<and> xQueueSend (channel_run [Try_send 7, Reset]) 9 =
     (pdTRUE, \<lparr>uxLength = 1, items = [9]\<rparr>)
   \<and> items (fila (run [Run_Task1 True, Run_Task1 True] app_main)) = [1]
   \<and> fila (Task1_cycle True (run [Run_Task1 True, Run_Task1 True] app_main)) =
       fila (run [Run_Task1 True, Run_Task1 True] app_main)
   \<and> \<not> send_succeeded (emitted (run [Run_Task1 True, Run_Task1 True] app_main)
           (Task1_cycle True (run [Run_Task1 True, Run_Task1 True] app_main)))
   \<and> sent (Task1_send True (run [Run_Task1 True, Run_Task1 True] app_main)) = Some errQUEUE_FULL"
proof -
  have q: "items (fila (run [Run_Task1 True, Run_Task1 True] app_main)) = [1]"
    by (simp add: run_Cons run_Nil app_main_def Task1_send_unfold Task1_after_send_unfold
        xQueueCreate_def)
  from try_send_succeeds_iff_empty
      [of "[Try_send 7, Receive, Try_send 8]" 9 "[Run_Task1 True, Run_Task1 True]"]
    try_send_succeeds_iff_empty [of "[Try_send 7, Reset]" 9 "[]"] q
  show ?thesis
    by (simp add: channel_run_def xQueueSend_def xQueueReceive_def xQueueReset_def xQueueCreate_def)
qed

subsection \<open>The liveness flags\<close>

lemma bits_of_insert: "xEventGroupSetBits (bits_of F) (flag_bit f) = bits_of (insert f F)"
  by (cases f) (auto simp: bits_of_def xEventGroupSetBits_def BIT_TASK1_OK_def BIT_TASK2_OK_def)

lemma wait_bits_of:
  "xEventGroupWaitBits (bits_of F) (BIT_TASK1_OK OR BIT_TASK2_OK) pdTRUE pdFALSE =
     (bits_of F, bits_of {})"
  by (auto simp: bits_of_def xEventGroupWaitBits_def BIT_TASK1_OK_def BIT_TASK2_OK_def
      pdTRUE_def pdFALSE_def)

lemma observations_bits_of: "observations (bits_of F) ops = map bits_of (reported F ops)"
proof (induction ops arbitrary: F)
  case Nil
  show ?case by simp
next
  case (Cons op ops)
  show ?case
  proof (cases op)
    case (Signal f)
    then show ?thesis by (simp add: bits_of_insert Cons.IH)
  next
    case Observe_and_clear
    then show ?thesis by (simp add: wait_bits_of Cons.IH)
  qed
qed

lemma bits_of_test: "(bits_of F AND flag_bit f \<noteq> 0) = (f \<in> F)"
  by (cases f) (auto simp: bits_of_def BIT_TASK1_OK_def BIT_TASK2_OK_def)

text \<open>
  C5. Starting from the event group as created, for every sequence of signals and
  observations, each observation returns exactly the flags signalled since the previous
  observation (since the start, for the first): no flag that was not signalled in
  between, every flag that was, none a second time, so the observation cleared what it
  reported; it returns no flag when none was signalled, which is the timeout. A flag
  is in the returned value exactly when its bit tests non-zero there.
\<close>

theorem observe_and_clear_reports_pending:
  "observations xEventGroupCreate ops = map bits_of (reported {} ops)
   \<and> (bits_of F AND flag_bit f \<noteq> 0) = (f \<in> F)"
  using observations_bits_of [of "{}" ops] bits_of_test [of F f]
  by (simp add: bits_of_def xEventGroupCreate_def)

theorem observe_and_clear_reports_pending_witness:
  "observations xEventGroupCreate
     [Observe_and_clear, Signal producer_ok, Signal consumer_ok, Signal producer_ok,
      Observe_and_clear, Observe_and_clear, Signal consumer_ok, Observe_and_clear] =
   [0, 3, 0, 2]"
  using observe_and_clear_reports_pending
    [of "[Observe_and_clear, Signal producer_ok, Signal consumer_ok, Signal producer_ok,
          Observe_and_clear, Observe_and_clear, Signal consumer_ok, Observe_and_clear]"
        "{}" producer_ok]
  by (simp add: bits_of_def BIT_TASK1_OK_def BIT_TASK2_OK_def)

subsection \<open>Task1: sequence numbers and the producer flag\<close>

lemma seq_exec:
  "seq (exec a s) = (if a = Run_Task1 True \<and> sent s = None then seq s + 1 else seq s)"
proof (cases a)
  case (Run_Task1 alloc)
  then show ?thesis
    by (cases "sent s") (simp_all add: Task1_send_unfold Task1_after_send_unfold)
next
  case (Run_Task2 alloc)
  then show ?thesis
    by (cases "received s") (simp_all add: Task2_receive_unfold Task2_body_seq split: list.splits)
next
  case Run_Task3
  then show ?thesis by (simp add: Task3_cycle_unfold)
qed

lemma created_item:
  "sent s = None \<Longrightarrow>
   mem (exec (Run_Task1 True) s) (dados (exec (Run_Task1 True) s)) =
     \<lparr>id_dado = seq s, valor = seq s\<rparr>"
  by (simp add: Task1_send_unfold)

lemma upt_0_Suc: "[0..<Suc n] = 0 # map Suc [0..<n]"
  by (simp only: map_Suc_upt upt_conv_Cons [of 0 "Suc n"] zero_less_Suc)

lemma creations_seq:
  "creations ss s =
     map (\<lambda>k. \<lparr>id_dado = seq s + of_nat k, valor = seq s + of_nat k\<rparr>)
       [0..<length (creations ss s)]"
proof (induction ss arbitrary: s)
  case Nil
  show ?case by simp
next
  case (Cons a ss)
  define n where "n = length (creations ss (exec a s))"
  have ih: "creations ss (exec a s) =
      map (\<lambda>k. \<lparr>id_dado = seq (exec a s) + of_nat k, valor = seq (exec a s) + of_nat k\<rparr>) [0..<n]"
    unfolding n_def by (rule Cons.IH)
  show ?case
  proof (cases "a = Run_Task1 True \<and> sent s = None")
    case True
    then have ra: "a = Run_Task1 True" and sn: "sent s = None"
      by simp_all
    from created_item [OF sn]
    have item: "mem (exec a s) (dados (exec a s)) = \<lparr>id_dado = seq s, valor = seq s\<rparr>"
      by (simp only: ra)
    have sq: "seq (exec a s) = seq s + 1"
      by (simp only: seq_exec ra sn simp_thms if_True)
    from True have "creations (a # ss) s =
        mem (exec a s) (dados (exec a s)) # creations ss (exec a s)"
      by simp
    also have "\<dots> = \<lparr>id_dado = seq s, valor = seq s\<rparr> #
        map (\<lambda>k. \<lparr>id_dado = seq s + 1 + of_nat k, valor = seq s + 1 + of_nat k\<rparr>) [0..<n]"
      by (simp only: item ih sq)
    also have "\<dots> =
        map (\<lambda>k. \<lparr>id_dado = seq s + of_nat k, valor = seq s + of_nat k\<rparr>) [0..<Suc n]"
      by (simp add: upt_0_Suc comp_def add.assoc del: upt_Suc)
    finally have c: "creations (a # ss) s =
        map (\<lambda>k. \<lparr>id_dado = seq s + of_nat k, valor = seq s + of_nat k\<rparr>) [0..<Suc n]" .
    then have "length (creations (a # ss) s) = Suc n"
      by (simp only: length_map length_upt diff_zero)
    with c show ?thesis by (simp only:)
  next
    case False
    then have sq: "seq (exec a s) = seq s"
      by (simp only: seq_exec if_False)
    from False have "creations (a # ss) s = creations ss (exec a s)"
      by auto
    also have "\<dots> =
        map (\<lambda>k. \<lparr>id_dado = seq s + of_nat k, valor = seq s + of_nat k\<rparr>) [0..<n]"
      by (simp only: ih sq)
    finally have c: "creations (a # ss) s =
        map (\<lambda>k. \<lparr>id_dado = seq s + of_nat k, valor = seq s + of_nat k\<rparr>) [0..<n]" .
    then have "length (creations (a # ss) s) = n"
      by (simp only: length_map length_upt diff_zero)
    with c show ?thesis by (simp only:)
  qed
qed

lemma creations_app_main:
  "creations ss app_main =
     map (\<lambda>k. \<lparr>id_dado = of_nat (Suc k), valor = of_nat (Suc k)\<rparr>)
       [0..<length (creations ss app_main)]"
proof -
  have "seq app_main = 1" by (simp add: app_main_def)
  with creations_seq [of ss app_main]
  have "creations ss app_main =
      map (\<lambda>k. \<lparr>id_dado = 1 + of_nat k, valor = 1 + of_nat k\<rparr>)
        [0..<length (creations ss app_main)]"
    by (simp only:)
  then show ?thesis by (simp only: of_nat_Suc)
qed

lemma sint_of_nat_small: "m < 2 ^ 31 \<Longrightarrow> sint (of_nat m :: 32 word) = int m"
proof -
  assume m: "m < 2 ^ 31"
  have "sint (of_nat m :: 32 word) = signed_take_bit 31 (int m)"
    by (simp add: signed_of_nat)
  also have "\<dots> = int m"
  proof (rule signed_take_bit_int_eq_self)
    show "- (2 ^ 31) \<le> int m" by simp
    from m have "int m < int (2 ^ 31)" by (simp only: of_nat_less_iff)
    then show "int m < 2 ^ 31" by simp
  qed
  finally show ?thesis .
qed

lemma Task1_two_steps:
  "sent s = None \<Longrightarrow>
   sent (exec (Run_Task1 True) s) \<noteq> None
   \<and> sent (exec (Run_Task1 True) (exec (Run_Task1 True) s)) = None"
  by (simp add: Task1_send_unfold)

lemma creations_Task1_alone:
  "sent s = None \<Longrightarrow> length (creations (replicate (2 * n) (Run_Task1 True)) s) = n"
proof (induction n arbitrary: s)
  case 0
  show ?case by simp
next
  case (Suc n)
  have r: "replicate (2 * Suc n) (Run_Task1 True) =
      Run_Task1 True # Run_Task1 True # replicate (2 * n) (Run_Task1 True)"
    by simp
  from Task1_two_steps [OF Suc.prems]
  have a: "sent (exec (Run_Task1 True) s) \<noteq> None"
    and b: "sent (exec (Run_Task1 True) (exec (Run_Task1 True) s)) = None"
    by simp_all
  from Suc.IH [OF b] Suc.prems a show ?case
    by (simp only: r creations.simps) simp
qed

lemma ids_decrease_at_overflow:
  assumes "2 ^ 31 \<le> length (creations ss app_main)"
  shows "\<not> sorted_wrt (<) (map (sint \<circ> id_dado) (creations ss app_main))"
proof
  define n where "n = length (creations ss app_main)"
  let ?ids = "map (sint \<circ> id_dado) (creations ss app_main)"
  assume sorted: "sorted_wrt (<) ?ids"
  have "creations ss app_main =
      map (\<lambda>k. \<lparr>id_dado = of_nat (Suc k), valor = of_nat (Suc k)\<rparr>) [0..<n]"
    unfolding n_def by (rule creations_app_main)
  then have ids: "?ids = map (\<lambda>k. sint (of_nat (Suc k) :: 32 word)) [0..<n]"
    by (simp add: comp_def)
  from assms have i: "2 ^ 31 - 2 < n" and j: "2 ^ 31 - 1 < n"
    by (simp_all add: n_def)
  have "?ids ! (2 ^ 31 - 2) < ?ids ! (2 ^ 31 - 1)"
    using sorted by (rule sorted_wrt_nth_less) (use j in \<open>simp_all add: ids\<close>)
  moreover have "?ids ! (2 ^ 31 - 2) = 2147483647"
    using i by (simp add: ids)
  moreover have "?ids ! (2 ^ 31 - 1) = - 2147483648"
    using j by (simp add: ids)
  ultimately show False
    by simp
qed

text \<open>
  The \<^verbatim>\<open>[TX]\<close> line is no record of what Task1 created. Task1 prints it on line 53
  from the block it has handed over on line 48; when Task2 has received the item and
  freed it on line 86 in between, the \<^verbatim>\<open>printf\<close> reads a block that is no longer
  allocated. The items Task1 creates are therefore read where it creates them.
\<close>

lemma TX_reads_freed_block:
  "emitted (run [Run_Task1 True, Run_Task2 True, Run_Task2 True] app_main)
     (run [Run_Task1 True, Run_Task2 True, Run_Task2 True, Run_Task1 True] app_main) =
     [SetBits BIT_TASK1_OK, Printf (TX None None), WdtReset hTask1, Delay hTask1 1000]
   \<and> creations [Run_Task1 True, Run_Task2 True, Run_Task2 True, Run_Task1 True] app_main =
     [\<lparr>id_dado = 1, valor = 1\<rparr>]
   \<and> emitted app_main (run [Run_Task1 True, Run_Task1 True] app_main) =
     [Malloc 1, QueueSend 1 pdTRUE, SetBits BIT_TASK1_OK, Printf (TX (Some 1) (Some 1)),
      WdtReset hTask1, Delay hTask1 1000]"
  by (simp add: run_Cons run_Nil emitted_def app_main_def Task1_send_unfold
      Task1_after_send_unfold Task2_receive_unfold Task2_body_received_unfold load_def
      xQueueCreate_def xEventGroupCreate_def errQUEUE_FULL_neq_pdTRUE NULL_def)

text \<open>
  C4, as stated, fails: \<^verbatim>\<open>seq\<close> is a 32-bit \<^verbatim>\<open>int\<close>. When Task1, running alone, has
  created \<open>2^31\<close> items (two steps for each), the last one has the id \<open>-2^31\<close>, below
  the id \<open>2^31 - 1\<close> of the one before it: the ids, read where the items are created, are
  not strictly increasing.
\<close>

theorem ids_wrap_around:
  "\<not> sorted_wrt (<) (map (sint \<circ> id_dado)
        (creations (replicate (2 * 2 ^ 31) (Run_Task1 True)) app_main))"
proof (rule ids_decrease_at_overflow)
  have "sent app_main = None"
    by (simp add: app_main_def)
  then have "length (creations (replicate (2 * 2 ^ 31) (Run_Task1 True)) app_main) = 2 ^ 31"
    by (rule creations_Task1_alone)
  then show "2 ^ 31 \<le> length (creations (replicate (2 * 2 ^ 31) (Run_Task1 True)) app_main)"
    by (simp only: order_refl)
qed

text \<open>
  C4, amended. In every run of the system in which Task1 has created fewer than \<open>2^31\<close>
  items, the ids of the items it has created, each read from its block in the step in
  which Task1 has filled it (lines 44 and 45) and before any other task has run, are
  1, 2, 3, ... in this order, one per item, whatever the other tasks did in between, at
  whatever point they interrupted Task1, and whether an item was sent or dropped; and in
  every run, every item created has, at that moment, \<^verbatim>\<open>valor\<close> equal to its
  \<^verbatim>\<open>id\<close>.
\<close>

theorem ids_count_up_until_overflow:
  assumes "length (creations ss app_main) < 2 ^ 31"
  shows "map (sint \<circ> id_dado) (creations ss app_main) =
           map int [1..<Suc (length (creations ss app_main))]
       \<and> map valor (creations ss app_main) = map id_dado (creations ss app_main)"
proof -
  define n where "n = length (creations ss app_main)"
  have c: "creations ss app_main =
      map (\<lambda>k. \<lparr>id_dado = of_nat (Suc k), valor = of_nat (Suc k)\<rparr>) [0..<n]"
    unfolding n_def by (rule creations_app_main)
  have "sint (of_nat (Suc k) :: 32 word) = int (Suc k)" if "k < n" for k
    using that assms by (intro sint_of_nat_small) (simp add: n_def)
  then have "map (sint \<circ> id_dado) (creations ss app_main) = map (\<lambda>k. int (Suc k)) [0..<n]"
    by (simp add: c)
  also have "\<dots> = map int (map Suc [0..<n])"
    by simp
  also have "map Suc [0..<n] = [1..<Suc n]"
    by (simp only: map_Suc_upt One_nat_def)
  finally have ids: "map (sint \<circ> id_dado) (creations ss app_main) = map int [1..<Suc n]" .
  have vals: "map valor (creations ss app_main) = map id_dado (creations ss app_main)"
    by (simp add: c)
  from ids vals show ?thesis
    unfolding n_def by (rule conjI)
qed

theorem ids_count_up_until_overflow_witness:
  "length (creations [Run_Task1 True, Run_Task2 True, Run_Task2 True, Run_Task1 True,
                      Run_Task1 True, Run_Task1 True, Run_Task3, Run_Task1 False,
                      Run_Task1 True, Run_Task1 True, Run_Task1 True] app_main) < (2::nat) ^ 31
   \<and> map (sint \<circ> id_dado)
       (creations [Run_Task1 True, Run_Task2 True, Run_Task2 True, Run_Task1 True,
                   Run_Task1 True, Run_Task1 True, Run_Task3, Run_Task1 False,
                   Run_Task1 True, Run_Task1 True, Run_Task1 True] app_main) = [1, 2, 3, 4]
   \<and> creations [Run_Task1 True, Run_Task2 True, Run_Task2 True, Run_Task1 True,
                 Run_Task1 True, Run_Task1 True, Run_Task3, Run_Task1 False,
                 Run_Task1 True, Run_Task1 True, Run_Task1 True] app_main =
       [\<lparr>id_dado = 1, valor = 1\<rparr>, \<lparr>id_dado = 2, valor = 2\<rparr>, \<lparr>id_dado = 3, valor = 3\<rparr>,
        \<lparr>id_dado = 4, valor = 4\<rparr>]"
proof -
  have c: "creations [Run_Task1 True, Run_Task2 True, Run_Task2 True, Run_Task1 True,
                      Run_Task1 True, Run_Task1 True, Run_Task3, Run_Task1 False,
                      Run_Task1 True, Run_Task1 True, Run_Task1 True] app_main =
       [\<lparr>id_dado = 1, valor = 1\<rparr>, \<lparr>id_dado = 2, valor = 2\<rparr>, \<lparr>id_dado = 3, valor = 3\<rparr>,
        \<lparr>id_dado = 4, valor = 4\<rparr>]"
    by (simp add: app_main_def Task1_send_unfold Task1_after_send_unfold Task2_receive_unfold
        Task2_body_received_unfold Task3_cycle_unfold load_def xQueueCreate_def
        xEventGroupCreate_def errQUEUE_FULL_neq_pdTRUE NULL_def BIT_TASK1_OK_def
        BIT_TASK2_OK_def health_def)
  then have h: "length (creations [Run_Task1 True, Run_Task2 True, Run_Task2 True, Run_Task1 True,
                      Run_Task1 True, Run_Task1 True, Run_Task3, Run_Task1 False,
                      Run_Task1 True, Run_Task1 True, Run_Task1 True] app_main) < (2::nat) ^ 31"
    by simp
  from ids_count_up_until_overflow [OF h] h c show ?thesis
    by (simp only: c) simp
qed

text \<open>
  C7. In a cycle of Task1 the bit \<^verbatim>\<open>BIT_TASK1_OK\<close> is set once when the send returned
  \<^verbatim>\<open>pdTRUE\<close> and not at all otherwise, that is, neither when the item was dropped nor
  when the allocation failed; Task1 never sets the bit of Task2. In a cycle of Task2 the
  bit \<^verbatim>\<open>BIT_TASK2_OK\<close> is set once when \<^verbatim>\<open>xQueueReceive\<close> returned \<^verbatim>\<open>pdTRUE\<close> and
  not at all otherwise, so neither on a timeout nor in the recovery; the receive itself
  sets nothing. The same holds of the parts of a cycle, between which the other tasks
  may run: the part of Task1 that ends with the send sets no bit, and the part after it
  sets \<^verbatim>\<open>BIT_TASK1_OK\<close> once exactly when the value the send returned is \<^verbatim>\<open>pdTRUE\<close>;
  and of a whole cycle of Task2: it sets \<^verbatim>\<open>BIT_TASK2_OK\<close> once when the queue held an
  item, so that its receive returned \<^verbatim>\<open>pdTRUE\<close>, and not at all when the queue was
  empty.
\<close>

theorem liveness_signalled_only_on_success:
  "count_list (emitted s (Task1_cycle alloc s)) (SetBits BIT_TASK1_OK) =
     (if send_succeeded (emitted s (Task1_cycle alloc s)) then 1 else 0)
   \<and> send_succeeded (emitted s (Task1_cycle alloc s)) =
       (alloc \<and> length (items (fila s)) < uxLength (fila s))
   \<and> event_supervisor (Task1_cycle alloc s) =
       (if send_succeeded (emitted s (Task1_cycle alloc s))
        then event_supervisor s OR BIT_TASK1_OK else event_supervisor s)
   \<and> count_list (emitted s (Task1_cycle alloc s)) (SetBits BIT_TASK2_OK) = 0
   \<and> count_list (emitted s (Task2_body r alloc s)) (SetBits BIT_TASK2_OK) =
       (if r = pdTRUE then 1 else 0)
   \<and> event_supervisor (Task2_body r alloc s) =
       (if r = pdTRUE then event_supervisor s OR BIT_TASK2_OK else event_supervisor s)
   \<and> count_list (emitted s (Task2_body r alloc s)) (SetBits BIT_TASK1_OK) = 0
   \<and> emitted s (Task2_receive s) =
       [QueueReceive (if items (fila s) = [] then pdFALSE else pdTRUE)]
   \<and> event_supervisor (Task2_receive s) = event_supervisor s
   \<and> count_list (emitted s (Task1_send alloc s)) (SetBits BIT_TASK1_OK) = 0
   \<and> count_list (emitted s (Task1_send alloc s)) (SetBits BIT_TASK2_OK) = 0
   \<and> event_supervisor (Task1_send alloc s) = event_supervisor s
   \<and> send_succeeded (emitted s (Task1_send alloc s)) = (sent (Task1_send alloc s) = Some pdTRUE)
   \<and> count_list (emitted s (Task1_after_send r s)) (SetBits BIT_TASK1_OK) =
       (if r = pdTRUE then 1 else 0)
   \<and> count_list (emitted s (Task1_after_send r s)) (SetBits BIT_TASK2_OK) = 0
   \<and> event_supervisor (Task1_after_send r s) =
       (if r = pdTRUE then event_supervisor s OR BIT_TASK1_OK else event_supervisor s)
   \<and> count_list (emitted s (Task2_cycle alloc s)) (SetBits BIT_TASK2_OK) =
       (if items (fila s) = [] then 0 else 1)
   \<and> count_list (emitted s (Task2_cycle alloc s)) (SetBits BIT_TASK1_OK) = 0"
proof -
  have "event_supervisor (Task1_cycle alloc s) =
      (if alloc \<and> length (items (fila s)) < uxLength (fila s)
       then event_supervisor s OR BIT_TASK1_OK else event_supervisor s)"
    by (simp add: Task1_cycle_unfold)
  moreover have "event_supervisor (Task2_receive s) = event_supervisor s"
    by (simp add: Task2_receive_unfold split: list.splits)
  ultimately have cycle: "count_list (emitted s (Task1_cycle alloc s)) (SetBits BIT_TASK1_OK) =
     (if send_succeeded (emitted s (Task1_cycle alloc s)) then 1 else 0)
   \<and> send_succeeded (emitted s (Task1_cycle alloc s)) =
       (alloc \<and> length (items (fila s)) < uxLength (fila s))
   \<and> event_supervisor (Task1_cycle alloc s) =
       (if send_succeeded (emitted s (Task1_cycle alloc s))
        then event_supervisor s OR BIT_TASK1_OK else event_supervisor s)
   \<and> count_list (emitted s (Task1_cycle alloc s)) (SetBits BIT_TASK2_OK) = 0
   \<and> count_list (emitted s (Task2_body r alloc s)) (SetBits BIT_TASK2_OK) =
       (if r = pdTRUE then 1 else 0)
   \<and> event_supervisor (Task2_body r alloc s) =
       (if r = pdTRUE then event_supervisor s OR BIT_TASK2_OK else event_supervisor s)
   \<and> count_list (emitted s (Task2_body r alloc s)) (SetBits BIT_TASK1_OK) = 0
   \<and> emitted s (Task2_receive s) =
       [QueueReceive (if items (fila s) = [] then pdFALSE else pdTRUE)]
   \<and> event_supervisor (Task2_receive s) = event_supervisor s"
    by (simp add: Task1_cycle_emitted Task2_body_emitted Task2_receive_emitted
        Task2_body_event_supervisor pdTRUE_def errQUEUE_FULL_def BIT_TASK1_OK_def BIT_TASK2_OK_def)
  have es: "event_supervisor (Task1_send alloc s) = event_supervisor s"
    by (simp add: Task1_send_unfold)
  have ea: "event_supervisor (Task1_after_send r s) =
      (if r = pdTRUE then event_supervisor s OR BIT_TASK1_OK else event_supervisor s)"
    by (simp add: Task1_after_send_unfold)
  have send: "count_list (emitted s (Task1_send alloc s)) (SetBits BIT_TASK1_OK) = 0
   \<and> count_list (emitted s (Task1_send alloc s)) (SetBits BIT_TASK2_OK) = 0
   \<and> send_succeeded (emitted s (Task1_send alloc s)) = (sent (Task1_send alloc s) = Some pdTRUE)"
    by (simp add: Task1_send_emitted Task1_send_sent errQUEUE_FULL_neq_pdTRUE)
  have after: "count_list (emitted s (Task1_after_send r s)) (SetBits BIT_TASK1_OK) =
       (if r = pdTRUE then 1 else 0)
   \<and> count_list (emitted s (Task1_after_send r s)) (SetBits BIT_TASK2_OK) = 0"
    by (simp add: Task1_after_send_emitted BIT_TASK1_OK_def BIT_TASK2_OK_def)
  have whole: "count_list (emitted s (Task2_cycle alloc s)) (SetBits BIT_TASK2_OK) =
       (if items (fila s) = [] then 0 else 1)
   \<and> count_list (emitted s (Task2_cycle alloc s)) (SetBits BIT_TASK1_OK) = 0"
    by (simp add: Task2_cycle_emitted Task2_receive_emitted Task2_body_emitted
        pdFALSE_neq_pdTRUE BIT_TASK1_OK_def BIT_TASK2_OK_def)
  from cycle es ea send after whole show ?thesis
    by blast
qed

theorem liveness_signalled_only_on_success_witness:
  "count_list (emitted app_main (Task1_cycle True app_main)) (SetBits BIT_TASK1_OK) = 1
   \<and> count_list (emitted app_main (Task1_cycle False app_main)) (SetBits BIT_TASK1_OK) = 0
   \<and> count_list (emitted app_main (Task2_body pdFALSE True app_main)) (SetBits BIT_TASK2_OK) = 0
   \<and> count_list (emitted app_main (Task2_body pdTRUE False app_main)) (SetBits BIT_TASK2_OK) = 1
   \<and> count_list (emitted app_main (Task1_after_send pdTRUE app_main)) (SetBits BIT_TASK1_OK) = 1
   \<and> count_list (emitted app_main (Task1_after_send pdFALSE app_main)) (SetBits BIT_TASK1_OK) = 0
   \<and> count_list (emitted app_main (Task2_cycle True app_main)) (SetBits BIT_TASK2_OK) = 0"
proof -
  have q: "length (items (fila app_main)) < uxLength (fila app_main)"
    and e: "items (fila app_main) = []"
    by (simp_all add: app_main_def xQueueCreate_def)
  from liveness_signalled_only_on_success [of app_main True pdFALSE]
    liveness_signalled_only_on_success [of app_main False pdTRUE] q e
  show ?thesis
    by (simp add: pdFALSE_neq_pdTRUE)
qed

text \<open>
  C3. What the code does: Task1 calls \<^verbatim>\<open>esp_task_wdt_reset\<close> once in a cycle whose
  allocation succeeded and not at all in a cycle whose allocation failed (the
  \<^verbatim>\<open>continue\<close> on line 40 skips line 57); Task2 calls it once in a cycle whose receive
  succeeded and not at all in a cycle whose receive timed out (the call on line 93 is
  inside the branch of the successful receive); Task3 calls it once in every cycle. From
  the initial state: a cycle of Task1 with a failed allocation and a cycle of Task2 on
  the empty queue, neither with a watchdog call. In the parts of a cycle of Task1: the
  part that ends with the send makes no watchdog call, and with a failed allocation it
  is the whole cycle; the part after the send makes one. A whole cycle of Task2 makes
  one watchdog call when the queue held an item and none when it was empty.
\<close>

theorem watchdog_not_fed_on_failure_paths:
  "count_list (emitted s (Task1_cycle alloc s)) (WdtReset hTask1) = (if alloc then 1 else 0)
   \<and> count_list (emitted s (Task2_receive s)) (WdtReset hTask2) = 0
   \<and> count_list (emitted s (Task2_body r alloc s)) (WdtReset hTask2) = (if r = pdTRUE then 1 else 0)
   \<and> count_list (emitted s (Task3_cycle s)) (WdtReset hTask3) = 1
   \<and> emitted app_main (run [Run_Task1 False] app_main) =
       [Malloc NULL, Printf ERRO_alocacao_Task1, Delay hTask1 1000]
   \<and> emitted app_main (run [Run_Task2 True, Run_Task2 True] app_main) =
       [QueueReceive pdFALSE, Printf (FILA_nenhum_dado 1 [])]
   \<and> count_list (emitted s (Task1_send alloc s)) (WdtReset hTask1) = 0
   \<and> sent (Task1_send False s) = None
   \<and> sent (run [Run_Task1 False] app_main) = None
   \<and> count_list (emitted s (Task1_after_send r s)) (WdtReset hTask1) = 1
   \<and> count_list (emitted s (Task2_cycle alloc s)) (WdtReset hTask2) =
       (if items (fila s) = [] then 0 else 1)"
proof -
  have "emitted app_main (run [Run_Task1 False] app_main) =
      [Malloc NULL, Printf ERRO_alocacao_Task1, Delay hTask1 1000]"
    by (simp add: run_Cons run_Nil emitted_def app_main_def Task1_send_unfold)
  moreover have "emitted app_main (run [Run_Task2 True, Run_Task2 True] app_main) =
      [QueueReceive pdFALSE, Printf (FILA_nenhum_dado 1 [])]"
    by (simp add: run_Cons run_Nil emitted_def app_main_def Task2_receive_unfold
        Task2_body_timeout_unfold pdFALSE_neq_pdTRUE xQueueCreate_def sle_5)
  ultimately have cycle:
   "count_list (emitted s (Task1_cycle alloc s)) (WdtReset hTask1) = (if alloc then 1 else 0)
   \<and> count_list (emitted s (Task2_receive s)) (WdtReset hTask2) = 0
   \<and> count_list (emitted s (Task2_body r alloc s)) (WdtReset hTask2) = (if r = pdTRUE then 1 else 0)
   \<and> count_list (emitted s (Task3_cycle s)) (WdtReset hTask3) = 1
   \<and> emitted app_main (run [Run_Task1 False] app_main) =
       [Malloc NULL, Printf ERRO_alocacao_Task1, Delay hTask1 1000]
   \<and> emitted app_main (run [Run_Task2 True, Run_Task2 True] app_main) =
       [QueueReceive pdFALSE, Printf (FILA_nenhum_dado 1 [])]"
    by (simp add: Task1_cycle_emitted Task2_body_emitted Task2_receive_emitted Task3_cycle_emitted)
  have send: "count_list (emitted s (Task1_send alloc s)) (WdtReset hTask1) = 0
   \<and> sent (Task1_send False s) = None"
    by (simp add: Task1_send_emitted Task1_send_sent)
  have first: "sent (run [Run_Task1 False] app_main) = None"
    by (simp add: run_Cons run_Nil app_main_def Task1_send_unfold)
  have after: "count_list (emitted s (Task1_after_send r s)) (WdtReset hTask1) = 1"
    by (simp add: Task1_after_send_emitted)
  have whole: "count_list (emitted s (Task2_cycle alloc s)) (WdtReset hTask2) =
       (if items (fila s) = [] then 0 else 1)"
    by (simp add: Task2_cycle_emitted Task2_receive_emitted Task2_body_emitted
        pdFALSE_neq_pdTRUE)
  from cycle send first after whole show ?thesis
    by blast
qed

subsection \<open>Task2: the retry counter\<close>

lemma count_timeouts_append:
  "count_timeouts n (es @ fs) = count_timeouts (count_timeouts n es) fs"
  by (induction n es rule: count_timeouts.induct) simp_all

lemma retry_inv_app_main: "retry_inv app_main"
  by (simp add: retry_inv_def app_main_def)

lemma retry_inv_cong:
  "timeout s' = timeout s \<Longrightarrow> received s' = received s \<Longrightarrow>
   count_timeouts 0 (trace s') = count_timeouts 0 (trace s) \<Longrightarrow> retry_inv s' = retry_inv s"
  by (simp add: retry_inv_def)

lemma Task1_send_retry_frame:
  "timeout (Task1_send alloc s) = timeout s"
  "received (Task1_send alloc s) = received s"
  "count_timeouts n (trace (Task1_send alloc s)) = count_timeouts n (trace s)"
  by (simp_all add: Task1_send_unfold count_timeouts_append)

lemma Task1_after_send_retry_frame:
  "timeout ((Task1_after_send r s)\<lparr>sent := x\<rparr>) = timeout s"
  "received ((Task1_after_send r s)\<lparr>sent := x\<rparr>) = received s"
  "count_timeouts n (trace ((Task1_after_send r s)\<lparr>sent := x\<rparr>)) = count_timeouts n (trace s)"
  by (simp_all add: Task1_after_send_unfold count_timeouts_append)

lemma Task3_cycle_retry_frame:
  "timeout (Task3_cycle s) = timeout s"
  "received (Task3_cycle s) = received s"
  "count_timeouts n (trace (Task3_cycle s)) = count_timeouts n (trace s)"
  by (simp_all add: Task3_cycle_unfold count_timeouts_append)

lemma retry_inv_Task1_send: "retry_inv (Task1_send alloc s) = retry_inv s"
  by (rule retry_inv_cong) (rule Task1_send_retry_frame)+

lemma retry_inv_Task1_after_send:
  "retry_inv ((Task1_after_send r s)\<lparr>sent := x\<rparr>) = retry_inv s"
  by (rule retry_inv_cong) (rule Task1_after_send_retry_frame)+

lemma retry_inv_Task3: "retry_inv (Task3_cycle s) = retry_inv s"
  by (rule retry_inv_cong) (rule Task3_cycle_retry_frame)+

lemma retry_inv_receive:
  "retry_inv s \<Longrightarrow> received s = None \<Longrightarrow> retry_inv (Task2_receive s)"
  by (auto simp add: retry_inv_def Task2_receive_unfold count_timeouts_append pdFALSE_neq_pdTRUE
      split: list.splits)

lemma small_cases: "1 \<le> c \<Longrightarrow> c \<le> 5 \<Longrightarrow> c = 1 \<or> c = 2 \<or> c = 3 \<or> c = 4 \<or> c = (5::nat)"
  by arith

lemma retry_inv_body:
  assumes "retry_inv s" and "received s = Some r"
  shows "retry_inv ((Task2_body r alloc s)\<lparr>received := None\<rparr>)"
proof (cases "r = pdTRUE")
  case True
  with assms show ?thesis
    by (simp add: retry_inv_def Task2_body_received_unfold count_timeouts_append)
next
  case False
  with assms have c: "timeout s + 1 = of_nat (count_timeouts 0 (trace s))"
    "1 \<le> count_timeouts 0 (trace s)" "count_timeouts 0 (trace s) \<le> 5"
    by (simp_all add: retry_inv_def)
  from small_cases [OF c(2,3)] c(1) False show ?thesis
    by (auto simp add: retry_inv_def Task2_body_timeout_unfold count_timeouts_append sle_5)
qed

lemma retry_inv_exec:
  assumes "retry_inv s"
  shows "retry_inv (exec a s)"
proof (cases a)
  case (Run_Task1 alloc)
  with assms show ?thesis
    by (cases "sent s") (simp_all add: retry_inv_Task1_send retry_inv_Task1_after_send)
next
  case (Run_Task2 alloc)
  with assms show ?thesis
    by (cases "received s") (simp_all add: retry_inv_receive retry_inv_body)
next
  case Run_Task3
  with assms show ?thesis
    by (simp add: retry_inv_Task3)
qed

lemma retry_inv_run: "retry_inv (run ss app_main)"
  by (induction ss rule: rev_induct)
     (simp_all add: run_Nil run_snoc retry_inv_app_main retry_inv_exec)

text \<open>
  C10. In every state the system reaches, whatever the schedule, \<^verbatim>\<open>timeout\<close> is one of
  0, 1, 2, 3, 4; this holds in particular when Task2 starts a cycle. The largest value it
  takes inside a cycle is the one after the increment of line 98, between 1 and 5. After
  the branch of a successful receive it is 0; after the branch of a timeout it is 0 when
  it was 4, which is exactly when the queue is reset, and one more than before otherwise.
\<close>

theorem timeout_counter_bounds:
  "timeout (run ss app_main) \<in> {0, 1, 2, 3, 4}
   \<and> sint (timeout (run ss app_main)) \<in> {0..4}
   \<and> sint (timeout (run ss app_main) + 1) \<in> {1..5}
   \<and> timeout (Task2_body pdTRUE alloc (run ss app_main)) = 0
   \<and> timeout (Task2_body pdFALSE alloc (run ss app_main)) =
       (if timeout (run ss app_main) = 4 then 0 else timeout (run ss app_main) + 1)
   \<and> (QueueReset \<in> set (emitted (run ss app_main) (Task2_body pdFALSE alloc (run ss app_main))))
       = (timeout (run ss app_main) = 4)"
proof -
  have "timeout (run ss app_main) \<in> {0, 1, 2, 3, 4}"
    using retry_inv_run [of ss] by (simp add: retry_inv_def)
  then show ?thesis
    by (auto simp add: Task2_body_timeout Task2_body_emitted pdFALSE_neq_pdTRUE sle_5)
qed

theorem timeout_counter_bounds_witness:
  "timeout (run [Run_Task2 True, Run_Task2 True, Run_Task2 True, Run_Task2 True,
                 Run_Task2 True, Run_Task2 True, Run_Task2 True, Run_Task2 True] app_main) = 4
   \<and> QueueReset \<in> set (emitted
        (run [Run_Task2 True, Run_Task2 True, Run_Task2 True, Run_Task2 True,
              Run_Task2 True, Run_Task2 True, Run_Task2 True, Run_Task2 True] app_main)
        (Task2_body pdFALSE True
          (run [Run_Task2 True, Run_Task2 True, Run_Task2 True, Run_Task2 True,
                Run_Task2 True, Run_Task2 True, Run_Task2 True, Run_Task2 True] app_main)))
   \<and> timeout (Task2_body pdFALSE True
        (run [Run_Task2 True, Run_Task2 True, Run_Task2 True, Run_Task2 True,
              Run_Task2 True, Run_Task2 True, Run_Task2 True, Run_Task2 True] app_main)) = 0"
proof -
  have "timeout (run [Run_Task2 True, Run_Task2 True, Run_Task2 True, Run_Task2 True,
                      Run_Task2 True, Run_Task2 True, Run_Task2 True, Run_Task2 True] app_main) = 4"
    by (simp add: run_Cons run_Nil app_main_def Task2_receive_unfold
        Task2_body_timeout_unfold pdFALSE_neq_pdTRUE xQueueCreate_def sle_5)
  then show ?thesis
    using timeout_counter_bounds
      [of "[Run_Task2 True, Run_Task2 True, Run_Task2 True, Run_Task2 True,
            Run_Task2 True, Run_Task2 True, Run_Task2 True, Run_Task2 True]" True]
    by simp
qed

text \<open>
  C2. Take any state the system reaches in which \<^verbatim>\<open>xQueueReceive\<close> has returned \<open>r\<close>
  to Task2, and let \<open>n\<close> be the number of consecutive timeouts so far, this receive
  included. The branch Task2 then runs leaves \<^verbatim>\<open>timeout\<close> at 0 when the receive
  succeeded and when \<open>n\<close> is 5, and at \<open>n\<close> otherwise; it prints the alert exactly
  when the receive timed out and \<open>n\<close> is 3, and then changes nothing but the counter
  and the log; it prints the recovery line and resets the queue exactly when the receive
  timed out and \<open>n\<close> is 5, which leaves the queue empty. \<open>n\<close> is never above 5, and
  afterwards the counter is again the number of consecutive timeouts.
\<close>

theorem timeout_escalation:
  assumes "received (run ss app_main) = Some r"
  shows "let s = run ss app_main;
             s' = exec (Run_Task2 alloc) s;
             n = count_timeouts 0 (trace s)
         in timeout s' = (if r = pdTRUE \<or> n = 5 then 0 else of_nat n)
          \<and> (Printf ALERTA \<in> set (emitted s s')) = (r \<noteq> pdTRUE \<and> n = 3)
          \<and> (Printf RECUPERACAO \<in> set (emitted s s')) = (r \<noteq> pdTRUE \<and> n = 5)
          \<and> (QueueReset \<in> set (emitted s s')) = (r \<noteq> pdTRUE \<and> n = 5)
          \<and> (r \<noteq> pdTRUE \<and> n = 3 \<longrightarrow>
               s' = s\<lparr>timeout := 3, received := None,
                       trace := trace s @ [Printf (FILA_nenhum_dado 3 ''s''), Printf ALERTA]\<rparr>)
          \<and> (r \<noteq> pdTRUE \<and> n = 5 \<longrightarrow> items (fila s') = [])
          \<and> (r = pdTRUE) = (n = 0) \<and> n \<le> 5
          \<and> timeout s' = of_nat (count_timeouts 0 (trace s'))"
proof -
  define s where "s = run ss app_main"
  define n where "n = count_timeouts 0 (trace s)"
  have rcv: "received s = Some r"
    using assms by (simp add: s_def)
  have inv: "retry_inv s"
    unfolding s_def by (rule retry_inv_run)
  have exec: "exec (Run_Task2 alloc) s = (Task2_body r alloc s)\<lparr>received := None\<rparr>"
    using rcv by simp
  show ?thesis
  proof (cases "r = pdTRUE")
    case True
    with inv rcv have "n = 0"
      by (simp add: retry_inv_def n_def)
    with True show ?thesis
      unfolding s_def [symmetric] n_def [symmetric] Let_def exec
      by (simp add: Task2_body_timeout Task2_body_emitted Task2_body_trace Task2_body_fila
          count_timeouts_append n_def emitted_received_update)
  next
    case False
    with inv rcv have c: "timeout s + 1 = of_nat n" "1 \<le> n" "n \<le> 5"
      by (simp_all add: retry_inv_def n_def)
    have unchanged: "(Task2_body r alloc s)\<lparr>received := None\<rparr> =
        s\<lparr>timeout := 3, received := None,
           trace := trace s @ [Printf (FILA_nenhum_dado 3 ''s''), Printf ALERTA]\<rparr>"
      if "n = 3"
      using that c(1) False by (simp add: Task2_body_timeout_unfold sle_5)
    from small_cases [OF c(2,3)] c(1) False unchanged show ?thesis
      unfolding s_def [symmetric] n_def [symmetric] Let_def exec
      by (auto simp add: Task2_body_timeout Task2_body_emitted Task2_body_trace Task2_body_fila
          count_timeouts_append sle_5 n_def emitted_received_update)
  qed
qed

theorem timeout_escalation_witness:
  "received (run [Run_Task2 True, Run_Task2 True, Run_Task2 True, Run_Task2 True,
                  Run_Task2 True] app_main) = Some pdFALSE
   \<and> count_timeouts 0 (trace (run [Run_Task2 True, Run_Task2 True, Run_Task2 True,
                                    Run_Task2 True, Run_Task2 True] app_main)) = 3
   \<and> emitted (run [Run_Task2 True, Run_Task2 True, Run_Task2 True, Run_Task2 True,
                   Run_Task2 True] app_main)
        (exec (Run_Task2 True)
          (run [Run_Task2 True, Run_Task2 True, Run_Task2 True, Run_Task2 True,
                Run_Task2 True] app_main)) =
       [Printf (FILA_nenhum_dado 3 ''s''), Printf ALERTA]
   \<and> timeout (exec (Run_Task2 True)
        (run [Run_Task2 True, Run_Task2 True, Run_Task2 True, Run_Task2 True,
              Run_Task2 True] app_main)) = 3"
proof -
  have h: "received (run [Run_Task2 True, Run_Task2 True, Run_Task2 True, Run_Task2 True,
                          Run_Task2 True] app_main) = Some pdFALSE"
    by (simp add: run_Cons run_Nil app_main_def Task2_receive_unfold
        Task2_body_timeout_unfold pdFALSE_neq_pdTRUE xQueueCreate_def sle_5)
  have n: "count_timeouts 0 (trace (run [Run_Task2 True, Run_Task2 True, Run_Task2 True,
                                         Run_Task2 True, Run_Task2 True] app_main)) = 3"
    by (simp add: run_Cons run_Nil app_main_def Task2_receive_unfold
        Task2_body_timeout_unfold pdFALSE_neq_pdTRUE xQueueCreate_def sle_5)
  from timeout_escalation [OF h, of True] h n show ?thesis
    by (simp add: Let_def pdFALSE_neq_pdTRUE emitted_def)
qed

subsection \<open>Task2: consuming a received item\<close>

text \<open>
  C9, as stated, fails. Task1 sends item 1, Task2 receives it, and the \<^verbatim>\<open>malloc\<close> of the
  working copy fails: the cycle of this successful receive prints the allocation error
  and no \<^verbatim>\<open>[RX]\<close> line.
\<close>

theorem rx_not_logged_when_copy_fails:
  "received (run [Run_Task1 True, Run_Task2 True] app_main) = Some pdTRUE
   \<and> emitted (run [Run_Task1 True, Run_Task2 True] app_main)
        (run [Run_Task1 True, Run_Task2 True, Run_Task2 False] app_main) =
       [Malloc NULL, Printf ERRO_alocacao_receptor, Free 1, SetBits BIT_TASK2_OK, WdtReset hTask2]
   \<and> rx_logged (emitted (run [Run_Task1 True, Run_Task2 True] app_main)
        (run [Run_Task1 True, Run_Task2 True, Run_Task2 False] app_main)) = 0"
  by (simp add: run_Cons run_Nil app_main_def emitted_def Task1_send_unfold Task2_receive_unfold
      Task2_body_received_unfold xQueueCreate_def NULL_def)

text \<open>
  C9, amended. In the branch of a successful receive, with the received item live: the
  bit \<^verbatim>\<open>BIT_TASK2_OK\<close> is set exactly once whether or not the working copy could be
  allocated; the \<^verbatim>\<open>[RX]\<close> line, with the \<^verbatim>\<open>valor\<close> and \<^verbatim>\<open>id\<close> of the item, is
  printed exactly once when the copy was allocated and not at all when it was not, in
  which case the allocation error is printed instead, once; the received item is freed
  exactly once in both cases; the working copy is allocated and freed exactly once when
  its allocation succeeded; afterwards the live blocks are those of before without the
  received item.
\<close>

theorem receive_consumes_original:
  assumes "dados_recebidos s \<noteq> NULL" and "dados_recebidos s \<in> set (live s)"
  shows "count_list (emitted s (Task2_body pdTRUE alloc s)) (SetBits BIT_TASK2_OK) = 1
    \<and> rx_logged (emitted s (Task2_body pdTRUE alloc s)) = (if alloc then 1 else 0)
    \<and> count_list (emitted s (Task2_body pdTRUE alloc s))
         (Printf (RX (valor (mem s (dados_recebidos s))) (id_dado (mem s (dados_recebidos s))))) =
       (if alloc then 1 else 0)
    \<and> count_list (emitted s (Task2_body pdTRUE alloc s)) (Printf ERRO_alocacao_receptor) =
       (if alloc then 0 else 1)
    \<and> count_list (emitted s (Task2_body pdTRUE alloc s)) (Free (dados_recebidos s)) = 1
    \<and> count_list (emitted s (Task2_body pdTRUE alloc s)) (Free (Suc (fold max (live s) 0))) =
       (if alloc then 1 else 0)
    \<and> count_list (emitted s (Task2_body pdTRUE alloc s)) (Malloc (Suc (fold max (live s) 0))) =
       (if alloc then 1 else 0)
    \<and> live (Task2_body pdTRUE alloc s) = removeAll (dados_recebidos s) (live s)"
proof -
  from assms(2) have "dados_recebidos s \<noteq> Suc (fold max (live s) 0)"
    using fresh_not_live [of "live s"] by auto
  with assms(1) show ?thesis
    by (simp add: Task2_body_emitted Task2_body_live BIT_TASK2_OK_def NULL_def)
qed

theorem receive_consumes_original_witness:
  "dados_recebidos (run [Run_Task1 True, Run_Task2 True] app_main) \<noteq> NULL
   \<and> dados_recebidos (run [Run_Task1 True, Run_Task2 True] app_main)
       \<in> set (live (run [Run_Task1 True, Run_Task2 True] app_main))
   \<and> rx_logged (emitted (run [Run_Task1 True, Run_Task2 True] app_main)
        (Task2_body pdTRUE True (run [Run_Task1 True, Run_Task2 True] app_main))) = 1
   \<and> count_list (emitted (run [Run_Task1 True, Run_Task2 True] app_main)
        (Task2_body pdTRUE True (run [Run_Task1 True, Run_Task2 True] app_main)))
        (Printf (RX 1 1)) = 1
   \<and> live (Task2_body pdTRUE True (run [Run_Task1 True, Run_Task2 True] app_main)) = []"
proof -
  have st: "dados_recebidos (run [Run_Task1 True, Run_Task2 True] app_main) = 1"
    "live (run [Run_Task1 True, Run_Task2 True] app_main) = [1]"
    "mem (run [Run_Task1 True, Run_Task2 True] app_main) (Suc 0) = \<lparr>id_dado = 1, valor = 1\<rparr>"
    by (simp_all add: run_Cons run_Nil app_main_def Task1_send_unfold Task2_receive_unfold
        xQueueCreate_def)
  have h1: "dados_recebidos (run [Run_Task1 True, Run_Task2 True] app_main) \<noteq> NULL"
    by (simp add: st NULL_def)
  have h2: "dados_recebidos (run [Run_Task1 True, Run_Task2 True] app_main)
      \<in> set (live (run [Run_Task1 True, Run_Task2 True] app_main))"
    by (simp add: st)
  from receive_consumes_original [OF h1 h2, of True] h1 h2 show ?thesis
    by (simp add: st)
qed

subsection \<open>Task2: the recovery\<close>

lemma lost_Task1_send:
  assumes "lost p s"
  shows "lost p (Task1_send alloc s)"
proof -
  from assms have "p \<noteq> Suc (fold max (live s) 0)"
    using fresh_not_live [of "live s"] by (auto simp: lost_def)
  with assms show ?thesis
    by (simp add: lost_def Task1_send_unfold)
qed

lemma lost_Task1_after_send:
  assumes "lost p s" and "sent s = Some r"
  shows "lost p ((Task1_after_send r s)\<lparr>sent := None\<rparr>)"
proof (cases "r = pdTRUE")
  case True
  with assms show ?thesis
    by (simp add: lost_def Task1_after_send_unfold)
next
  case False
  with assms have "dados s \<noteq> p"
    by (simp add: lost_def)
  with assms False show ?thesis
    by (simp add: lost_def Task1_after_send_unfold)
qed

lemma lost_Task3: "lost p s \<Longrightarrow> lost p (Task3_cycle s)"
  by (simp add: lost_def Task3_cycle_unfold)

lemma lost_receive: "lost p s \<Longrightarrow> lost p (Task2_receive s)"
  by (auto simp add: lost_def Task2_receive_unfold split: list.splits)

lemma lost_body:
  assumes "lost p s"
  shows "lost p ((Task2_body r alloc s)\<lparr>received := None\<rparr>)"
proof (cases "r = pdTRUE")
  case True
  from assms have "p \<noteq> Suc (fold max (live s) 0)"
    using fresh_not_live [of "live s"] by (auto simp: lost_def)
  with assms True show ?thesis
    by (simp add: lost_def Task2_body_received_unfold)
next
  case False
  with assms show ?thesis
    by (simp add: lost_def Task2_body_timeout_unfold)
qed

lemma lost_exec:
  assumes "lost p s"
  shows "lost p (exec a s)"
proof (cases a)
  case (Run_Task1 alloc)
  with assms show ?thesis
    by (cases "sent s") (simp_all add: lost_Task1_send lost_Task1_after_send)
next
  case (Run_Task2 alloc)
  with assms show ?thesis
    by (cases "received s") (simp_all add: lost_receive lost_body)
next
  case Run_Task3
  with assms show ?thesis
    by (simp add: lost_Task3)
qed

lemma lost_run: "lost p s \<Longrightarrow> lost p (run ss s)"
  by (induction ss rule: rev_induct) (simp_all add: run_Nil run_snoc lost_exec)

text \<open>
  C8. What the code does at the recovery: \<^verbatim>\<open>xQueueReset\<close> empties the queue, and the
  queue holds pointers, so an item that is in the slot at that moment is dropped from the
  queue and not freed. In the schedule \<open>leak_schedule\<close>, item 1 is in the queue, and
  Task1 has finished the cycle that sent it, when Task2 reaches its recovery; after the recovery the queue is empty, block 1 is still
  allocated, it was never freed, and neither the queue nor a task holds its address. In
  every continuation of the run it stays allocated and is never freed.
\<close>

theorem reset_leaks_queued_item:
  "items (fila (run (butlast leak_schedule) app_main)) = [1]
   \<and> received (run (butlast leak_schedule) app_main) = Some pdFALSE
   \<and> timeout (run (butlast leak_schedule) app_main) = 4
   \<and> emitted (run (butlast leak_schedule) app_main) (run leak_schedule app_main) =
       [Printf (FILA_nenhum_dado 5 ''s''), Printf RECUPERACAO, QueueReset]
   \<and> items (fila (run leak_schedule app_main)) = []
   \<and> timeout (run leak_schedule app_main) = 0
   \<and> live (run leak_schedule app_main) = [1]
   \<and> dados_recebidos (run leak_schedule app_main) = NULL
   \<and> 1 \<in> set (live (run (leak_schedule @ ss) app_main))
   \<and> count_list (trace (run (leak_schedule @ ss) app_main)) (Free 1) = 0"
proof -
  have before: "items (fila (run (butlast leak_schedule) app_main)) = [1]
      \<and> received (run (butlast leak_schedule) app_main) = Some pdFALSE
      \<and> timeout (run (butlast leak_schedule) app_main) = 4"
    by (simp add: leak_schedule_def run_Cons run_Nil app_main_def Task1_send_unfold
        Task1_after_send_unfold load_def errQUEUE_FULL_neq_pdTRUE
        Task2_receive_unfold Task2_body_timeout_unfold pdFALSE_neq_pdTRUE xQueueCreate_def sle_5)
  have step: "emitted (run (butlast leak_schedule) app_main) (run leak_schedule app_main) =
      [Printf (FILA_nenhum_dado 5 ''s''), Printf RECUPERACAO, QueueReset]"
    by (simp add: leak_schedule_def run_Cons run_Nil app_main_def emitted_def Task1_send_unfold
        Task1_after_send_unfold load_def errQUEUE_FULL_neq_pdTRUE
        Task2_receive_unfold Task2_body_timeout_unfold pdFALSE_neq_pdTRUE xQueueCreate_def sle_5)
  have after: "items (fila (run leak_schedule app_main)) = []
      \<and> timeout (run leak_schedule app_main) = 0
      \<and> live (run leak_schedule app_main) = [1]
      \<and> dados_recebidos (run leak_schedule app_main) = NULL
      \<and> count_list (trace (run leak_schedule app_main)) (Free 1) = 0
      \<and> sent (run leak_schedule app_main) = None"
    by (simp add: leak_schedule_def run_Cons run_Nil app_main_def Task1_send_unfold
        Task1_after_send_unfold load_def errQUEUE_FULL_neq_pdTRUE
        Task2_receive_unfold Task2_body_timeout_unfold pdFALSE_neq_pdTRUE xQueueCreate_def sle_5
        NULL_def)
  then have "lost 1 (run leak_schedule app_main)"
    by (simp add: lost_def NULL_def)
  then have "lost 1 (run ss (run leak_schedule app_main))"
    by (rule lost_run)
  then have "1 \<in> set (live (run (leak_schedule @ ss) app_main))
      \<and> count_list (trace (run (leak_schedule @ ss) app_main)) (Free 1) = 0"
    by (simp add: lost_def run_def)
  with before step after show ?thesis
    by simp
qed

subsection \<open>Task3: the classification\<close>

lemma wait_clears_flags:
  "snd (xEventGroupWaitBits b (BIT_TASK1_OK OR BIT_TASK2_OK) pdTRUE pdFALSE) AND BIT_TASK1_OK = 0 \<and>
   snd (xEventGroupWaitBits b (BIT_TASK1_OK OR BIT_TASK2_OK) pdTRUE pdFALSE) AND BIT_TASK2_OK = 0"
proof (cases "b AND 3 = 0")
  case True
  have "b AND 1 = (b AND 3) AND 1" "b AND 2 = (b AND 3) AND 2"
    by (simp_all add: and.assoc)
  with True show ?thesis
    by (simp add: xEventGroupWaitBits_def BIT_TASK1_OK_def BIT_TASK2_OK_def pdFALSE_def)
next
  case False
  then show ?thesis
    by (simp add: xEventGroupWaitBits_def BIT_TASK1_OK_def BIT_TASK2_OK_def pdFALSE_def
        pdTRUE_def and.assoc)
qed

lemma Task3_cycle_event_supervisor:
  "event_supervisor (Task3_cycle s) =
     snd (xEventGroupWaitBits (event_supervisor s) (BIT_TASK1_OK OR BIT_TASK2_OK) pdTRUE pdFALSE)"
  by (simp add: Task3_cycle_def emit_def printf_def vTaskDelay_def esp_task_wdt_reset_def
      Let_def split: prod.splits)

text \<open>
  C6. A cycle of Task3 prints the line for the state of health that section 4.5 of the
  specification gives for the value its wait returned: both bits set, the system is OK;
  only the bit of Task1, partially OK, only Task1 signalled; only the bit of Task2,
  partially OK, only Task2 signalled; neither, failure. Whether the line reports the
  producer depends on the producer bit alone, and likewise for the consumer. After the
  cycle both bits are clear, and a second cycle with no signal in between reports the
  failure.
\<close>

theorem Task3_classifies_observation:
  "emitted s (Task3_cycle s) =
     [WaitBits (event_supervisor s),
      Printf (health (event_supervisor s AND BIT_TASK1_OK \<noteq> 0)
                     (event_supervisor s AND BIT_TASK2_OK \<noteq> 0)),
      WdtReset hTask3, Delay hTask3 2000]
   \<and> (health p c \<in> {SUP_OK, SUP_apenas_Task1}) = p
   \<and> (health p c \<in> {SUP_OK, SUP_apenas_Task2}) = c
   \<and> health True True = SUP_OK \<and> health True False = SUP_apenas_Task1
   \<and> health False True = SUP_apenas_Task2 \<and> health False False = FALHA_nenhuma
   \<and> event_supervisor (Task3_cycle s) AND BIT_TASK1_OK = 0
   \<and> event_supervisor (Task3_cycle s) AND BIT_TASK2_OK = 0
   \<and> emitted (Task3_cycle s) (Task3_cycle (Task3_cycle s)) =
       [WaitBits (event_supervisor (Task3_cycle s)), Printf FALHA_nenhuma,
        WdtReset hTask3, Delay hTask3 2000]"
  using wait_clears_flags [of "event_supervisor s"]
  by (simp add: Task3_cycle_emitted Task3_cycle_event_supervisor) (simp add: health_def)

theorem Task3_classifies_observation_witness:
  "emitted (run [Run_Task1 True, Run_Task1 True, Run_Task2 True, Run_Task2 True] app_main)
     (Task3_cycle (run [Run_Task1 True, Run_Task1 True, Run_Task2 True, Run_Task2 True] app_main)) =
     [WaitBits 3, Printf SUP_OK, WdtReset hTask3, Delay hTask3 2000]
   \<and> emitted (run [Run_Task1 True, Run_Task1 True] app_main)
       (Task3_cycle (run [Run_Task1 True, Run_Task1 True] app_main)) =
     [WaitBits 1, Printf SUP_apenas_Task1, WdtReset hTask3, Delay hTask3 2000]"
proof -
  have "event_supervisor
          (run [Run_Task1 True, Run_Task1 True, Run_Task2 True, Run_Task2 True] app_main) = 3"
    "event_supervisor (run [Run_Task1 True, Run_Task1 True] app_main) = 1"
    by (simp_all add: run_Cons run_Nil app_main_def Task1_send_unfold Task1_after_send_unfold
        load_def errQUEUE_FULL_neq_pdTRUE Task2_receive_unfold
        Task2_body_received_unfold xQueueCreate_def xEventGroupCreate_def
        BIT_TASK1_OK_def BIT_TASK2_OK_def)
  with Task3_classifies_observation
      [of "run [Run_Task1 True, Run_Task1 True, Run_Task2 True, Run_Task2 True] app_main" True True]
    Task3_classifies_observation [of "run [Run_Task1 True, Run_Task1 True] app_main" True False]
  show ?thesis
    by (simp add: BIT_TASK1_OK_def BIT_TASK2_OK_def)
qed

end
